theory Spec2Isabelle
  imports Main "HOL-Library.Word"
begin

unbundle bit_operations_syntax

section \<open>Data model of \<open>cmd/scat.go\<close>\<close>

text \<open>
  Modelled from the spec: the declaration of \<open>SeqStreamCtrl\<close> and of its constants is
  not in \<open>scat.go\<close>. The spec's control signals are the requests \<open>Try\<close> and \<open>Quit\<close> and
  the acknowledgments \<open>EOF\<close> and \<open>Exited\<close>; the Go type is an integer type, so any other
  integer can travel on a channel of that type: \<open>StreamOther\<close>.
\<close>

datatype SeqStreamCtrl = StreamTry | StreamQuit | StreamExited | StreamEOF | StreamOther int

text \<open>
  \<open>time.Time\<close> is an instant in nanoseconds counted from Go's zero \<open>Time\<close>, so the zero
  value of a \<open>LastTry\<close> field is 0. \<open>time.Duration\<close> is an \<open>int64\<close> of nanoseconds, and
  \<open>Time.Sub\<close> saturates at the least and greatest \<open>Duration\<close>.
\<close>

type_synonym Time = int
type_synonym Duration = int

definition time_Sub :: "Time \<Rightarrow> Time \<Rightarrow> Duration" where
  "time_Sub t u = max (- (2 ^ 63)) (min (2 ^ 63 - 1) (t - u))"

text \<open>\<open>os.FileInfo\<close>, as far as the watcher reads it.\<close>

record FileInfo =
  fi_IsDir :: bool
  fi_Size :: "64 word"

text \<open>
  \<open>WatchedFx\<close>. A channel field is \<open>None\<close> for Go's nil channel; otherwise it holds the
  name under which the channel was made (the file whose streaming session owns the control
  channels, the root whose queue \<open>seqChan\<close> is).
\<close>

record WatchedFx =
  Name :: string
  LastSize :: "64 word"
  LastTry :: Time
  BytesRead :: "64 word"
  IsDir :: bool
  SeqChan :: "string option"
  CtrlChanIn :: "string option"
  CtrlChanOut :: "string option"

text \<open>\<open>&WatchedFx{Name: path, IsDir: true}\<close>: every other field has its zero value.\<close>

definition dir_entry :: "string \<Rightarrow> WatchedFx" where
  "dir_entry path = \<lparr>Name = path, LastSize = 0, LastTry = 0, BytesRead = 0, IsDir = True,
     SeqChan = None, CtrlChanIn = None, CtrlChanOut = None\<rparr>"

text \<open>
  \<open>&WatchedFx{Name: path, IsDir: false, SeqChan: sc, CtrlChanIn: ctrlIn, CtrlChanOut: ctrlOut,
  LastSize: fi.Size(), LastTry: created}\<close>, with the channels that
  \<open>NewRawSeqStreamFromFile(path, sc, ...)\<close> returned.
\<close>

definition file_entry :: "string \<Rightarrow> string \<Rightarrow> FileInfo \<Rightarrow> Time \<Rightarrow> WatchedFx" where
  "file_entry root path fi created = \<lparr>Name = path, LastSize = fi_Size fi, LastTry = created,
     BytesRead = 0, IsDir = False, SeqChan = Some root, CtrlChanIn = Some path,
     CtrlChanOut = Some path\<rparr>"

text \<open>What a watcher does to the world outside its registry, in the order it does it.\<close>

datatype action =
    WatcherAdd string
  | WatcherRemove string
  | NewStream string
  | CtrlSend string SeqStreamCtrl
  | CtrlRecv string SeqStreamCtrl
  | PoolDelete string
  | RunWalk
  | Terminal int

text \<open>\<open>FxWatcher\<close>: the registry and its mutex, with the actions performed so far.\<close>

record FxWatcher =
  Pool :: "string \<rightharpoonup> WatchedFx"
  Locked :: bool
  trace :: "action list"

text \<open>
  The parameters of \<open>NewFxWatcher\<close> that the event policy reads. \<open>re\<close> is
  \<open>re.MatchString\<close>, \<open>join\<close> is \<open>path.Join\<close>; \<open>minDelta\<close> is a Go \<open>int\<close> (64 bits),
  converted by \<open>int64(minDelta)\<close>.
\<close>

record config =
  cfg_dir :: string
  cfg_re :: "string \<Rightarrow> bool"
  cfg_minDelta :: "64 word"
  cfg_dropDuration :: Duration
  cfg_join :: "string \<Rightarrow> string \<Rightarrow> string"

section \<open>Control flow\<close>

text \<open>
  A piece of the watcher either falls through to the next statement (\<open>Next\<close>) or leaves the
  handling of the current event (\<open>Stop\<close>): \<open>Running\<close> is \<open>continue SFOR\<close>, \<open>Returned\<close> the
  goroutine's \<open>return\<close>, \<open>Aborted\<close> the exit of the process (\<open>log.Fatal\<close>, \<open>checkError\<close>),
  \<open>Panicked\<close> a run-time panic, \<open>Blocked\<close> an operation that never completes.
\<close>

datatype status = Running | Returned | Aborted | Panicked | Blocked

datatype flow = Next FxWatcher | Stop status FxWatcher

definition then_do :: "flow \<Rightarrow> (FxWatcher \<Rightarrow> flow) \<Rightarrow> flow" where
  "then_do f g = (case f of Next s \<Rightarrow> g s | Stop st s \<Rightarrow> Stop st s)"

fun outcome :: "flow \<Rightarrow> status \<times> FxWatcher" where
  "outcome (Next s) = (Running, s)"
| "outcome (Stop st s) = (st, s)"

definition emit :: "action \<Rightarrow> FxWatcher \<Rightarrow> FxWatcher" where
  "emit a s = s\<lparr>trace := trace s @ [a]\<rparr>"

text \<open>
  \<open>sync.Mutex\<close> is not reentrant: \<open>Lock\<close> on a mutex that is held never returns, and
  \<open>Unlock\<close> of a mutex that is not held is a fatal run-time error.
\<close>

definition Lock :: "FxWatcher \<Rightarrow> flow" where
  "Lock s = (if Locked s then Stop Blocked s else Next (s\<lparr>Locked := True\<rparr>))"

definition Unlock :: "FxWatcher \<Rightarrow> flow" where
  "Unlock s = (if Locked s then Next (s\<lparr>Locked := False\<rparr>) else Stop Panicked s)"

text \<open>
  Modelled from the spec: \<open>checkError\<close> is not in \<open>scat.go\<close>. The spec lists what it guards
  (a malformed name pattern, a malformed debounce interval, a failed subscription) as fatal:
  a non-nil error aborts the process, a nil one lets it go on.
\<close>

definition checkError :: "bool \<Rightarrow> FxWatcher \<Rightarrow> flow" where
  "checkError failed s = (if failed then Stop Aborted s else Next s)"

text \<open>
  A send on a nil channel never completes. The session at the other end of a control channel
  is taken to be receiving; what it answers, if anything, is an input of the model.
\<close>

definition chan_send :: "string option \<Rightarrow> SeqStreamCtrl \<Rightarrow> FxWatcher \<Rightarrow> flow" where
  "chan_send c v s = (case c of None \<Rightarrow> Stop Blocked s | Some n \<Rightarrow> Next (emit (CtrlSend n v) s))"

text \<open>
  \<open>fb := <-c\<close>: \<open>reply\<close> is the value that arrives (\<open>None\<close>: none ever does); a receive on a
  nil channel never completes.
\<close>

definition chan_recv ::
  "string option \<Rightarrow> SeqStreamCtrl option \<Rightarrow> FxWatcher \<Rightarrow> (SeqStreamCtrl \<Rightarrow> FxWatcher \<Rightarrow> flow) \<Rightarrow> flow" where
  "chan_recv c reply s k =
     (case c of None \<Rightarrow> Stop Blocked s
      | Some n \<Rightarrow> (case reply of None \<Rightarrow> Stop Blocked s
                   | Some v \<Rightarrow> k v (emit (CtrlRecv n v) s)))"

definition pool_delete :: "string \<Rightarrow> FxWatcher \<Rightarrow> FxWatcher" where
  "pool_delete p s = emit (PoolDelete p) (s\<lparr>Pool := (Pool s)(p := None)\<rparr>)"

definition pool_put :: "string \<Rightarrow> WatchedFx \<Rightarrow> FxWatcher \<Rightarrow> FxWatcher" where
  "pool_put p w s = s\<lparr>Pool := (Pool s)(p \<mapsto> w)\<rparr>"

text \<open>
  The three statements that the remove, rename and truncation paths share:
  \<open>w.CtrlChanIn <- StreamQuit; fb := <-w.CtrlChanOut; if fb != StreamExited { log.Fatal(...) };
  delete(self.Pool, ePath)\<close>.
\<close>

definition quit_and_wait :: "string \<Rightarrow> WatchedFx \<Rightarrow> SeqStreamCtrl option \<Rightarrow> FxWatcher \<Rightarrow> flow" where
  "quit_and_wait ePath w reply s =
     then_do (chan_send (CtrlChanIn w) StreamQuit s) (\<lambda>s.
       chan_recv (CtrlChanOut w) reply s (\<lambda>fb s.
         if fb \<noteq> StreamExited then Stop Aborted s else Next (pool_delete ePath s)))"

section \<open>The discovery walk callback\<close>

text \<open>
  One call of \<open>walkFunc\<close> by \<open>cwalk.Walk\<close>: the relative path and the \<open>FileInfo\<close> it is
  called with, and what the environment answers inside the call (whether \<open>watcher.Add\<close>
  succeeds, what \<open>os.Stat\<close> returns, what \<open>time.Now()\<close> reads).
\<close>

record walk_item =
  wi_path :: string
  wi_info :: FileInfo
  wi_add_ok :: bool
  wi_stat :: "FileInfo option"
  wi_now :: Time

definition walkFunc :: "config \<Rightarrow> walk_item \<Rightarrow> FxWatcher \<Rightarrow> flow" where
  "walkFunc cfg it s =
     (let path = cfg_join cfg (cfg_dir cfg) (wi_path it) in
      then_do (Lock s) (\<lambda>s.
        if Pool s path \<noteq> None then Unlock s
        else if fi_IsDir (wi_info it) then
          then_do (checkError (\<not> wi_add_ok it) (emit (WatcherAdd path) s)) (\<lambda>s.
            Unlock (pool_put path (dir_entry path) s))
        else if \<not> cfg_re cfg path then Next s
        else
          then_do (checkError (\<not> wi_add_ok it) (emit (WatcherAdd path) (emit (NewStream path) s))) (\<lambda>s.
            case wi_stat it of
              None \<Rightarrow> Stop Aborted s
            | Some fi \<Rightarrow>
                then_do (chan_send (Some path) StreamTry
                           (pool_put path (file_entry (cfg_dir cfg) path fi (wi_now it)) s))
                  Unlock)))"

text \<open>
  \<open>cwalk.Walk(dir, walkFunc)\<close>: the callback runs on every item found, here one call after
  the other.
\<close>

fun walk :: "config \<Rightarrow> walk_item list \<Rightarrow> FxWatcher \<Rightarrow> flow" where
  "walk cfg [] s = Next s"
| "walk cfg (it # its) s = then_do (walkFunc cfg it s) (walk cfg its)"

section \<open>The event policy\<close>

text \<open>
  \<open>fsnotify.Event\<close>: a path and a bit mask of operations. The constants are those of
  \<open>fsnotify.Op\<close>: \<open>Create = 1 << 0\<close>, \<open>Write = 1 << 1\<close>, \<open>Remove = 1 << 2\<close>,
  \<open>Rename = 1 << 3\<close>, \<open>Chmod = 1 << 4\<close>.
\<close>

record Event =
  ev_Name :: string
  ev_Op :: "32 word"

definition Create :: "32 word" where "Create = 1"
definition Write :: "32 word" where "Write = 2"
definition Remove :: "32 word" where "Remove = 4"
definition Rename :: "32 word" where "Rename = 8"
definition Chmod :: "32 word" where "Chmod = 16"

text \<open>
  What the environment answers while one event is handled: the acknowledgment that arrives
  after a \<open>Quit\<close> on each of the three paths that send one, the results of the two
  \<open>os.Stat\<close> calls, whether \<open>watcher.Add\<close> succeeds, the three readings of \<open>time.Now()\<close>,
  and what \<open>cwalk.Walk\<close> finds and returns.
\<close>

record event_env =
  ack_remove :: "SeqStreamCtrl option"
  ack_rename :: "SeqStreamCtrl option"
  ack_trunc :: "SeqStreamCtrl option"
  stat_create :: "FileInfo option"
  stat_write :: "FileInfo option"
  add_ok :: bool
  now_created :: Time
  now_check :: Time
  now_try :: Time
  walk_items :: "walk_item list"
  walk_ok :: bool

text \<open>\<open>if event.Op&fsnotify.Remove == fsnotify.Remove { ... }\<close>\<close>

definition remove_branch :: "event_env \<Rightarrow> string \<Rightarrow> FxWatcher \<Rightarrow> flow" where
  "remove_branch env ePath s =
     then_do (Lock s) (\<lambda>s.
       case Pool s ePath of
         None \<Rightarrow> then_do (Unlock s) (Stop Running)
       | Some di \<Rightarrow>
           if IsDir di then
             then_do (Unlock (pool_delete ePath (emit (WatcherRemove ePath) s))) (Stop Running)
           else
             then_do (quit_and_wait ePath di (ack_remove env) s) (\<lambda>s.
               then_do (Unlock s) (Stop Running)))"

text \<open>
  \<open>if event.Op&fsnotify.Rename == fsnotify.Rename { ... }\<close>: the entry is read without a
  nil check and without the lock, and control falls through to the next test.
\<close>

definition rename_branch :: "event_env \<Rightarrow> string \<Rightarrow> FxWatcher \<Rightarrow> flow" where
  "rename_branch env ePath s =
     (case Pool s ePath of
        None \<Rightarrow> Stop Panicked s
      | Some w \<Rightarrow> quit_and_wait ePath w (ack_rename env) s)"

text \<open>\<open>if event.Op&fsnotify.Create == fsnotify.Create { ... }\<close>\<close>

definition create_branch :: "config \<Rightarrow> event_env \<Rightarrow> string \<Rightarrow> FxWatcher \<Rightarrow> flow" where
  "create_branch cfg env ePath s =
     (if Pool s ePath \<noteq> None then Stop Running s
      else case stat_create env of
        None \<Rightarrow> Stop Aborted s
      | Some fi \<Rightarrow>
          then_do (Lock s) (\<lambda>s.
            if fi_IsDir fi then
              then_do (checkError (\<not> add_ok env) (emit (WatcherAdd ePath) s)) (\<lambda>s.
              then_do (Unlock (pool_put ePath (dir_entry ePath) s)) (\<lambda>s.
              then_do (walk cfg (walk_items env) (emit RunWalk s)) (\<lambda>s.
              then_do (checkError (\<not> walk_ok env) s) (Stop Running))))
            else if \<not> cfg_re cfg ePath then then_do (Unlock s) (Stop Running)
            else
              then_do (checkError (\<not> add_ok env)
                         (emit (WatcherAdd ePath)
                            (pool_put ePath (file_entry (cfg_dir cfg) ePath fi (now_created env))
                               (emit (NewStream ePath) s)))) (\<lambda>s.
              then_do (chan_send (Some ePath) StreamTry s) Unlock)))"

text \<open>\<open>if event.Op&fsnotify.Write == fsnotify.Write { ... }\<close>\<close>

definition write_branch :: "config \<Rightarrow> event_env \<Rightarrow> string \<Rightarrow> FxWatcher \<Rightarrow> flow" where
  "write_branch cfg env ePath s =
     (case stat_write env of
        None \<Rightarrow> Stop Aborted s
      | Some fi \<Rightarrow>
          then_do (Lock s) (\<lambda>s.
            case Pool s ePath of
              None \<Rightarrow> then_do (Unlock s) (Stop Running)
            | Some w \<Rightarrow>
                if fi_IsDir fi then then_do (Unlock s) (Stop Running)
                else if time_Sub (now_check env) (LastTry w) < cfg_dropDuration cfg
                  then then_do (Unlock s) (Stop Running)
                else if LastSize w = fi_Size fi then then_do (Unlock s) (Stop Running)
                else
                  (let delta = fi_Size fi - LastSize w in
                   if sint delta < 0 then
                     then_do (quit_and_wait ePath w (ack_trunc env) s) (\<lambda>s.
                       then_do (Unlock s) (Stop Running))
                   else if sint delta < sint (cfg_minDelta cfg) then
                     then_do (Unlock s) (Stop Running)
                   else
                     then_do (chan_send (CtrlChanIn w) StreamTry s) (\<lambda>s.
                       Unlock (pool_put ePath (w\<lparr>LastTry := now_try env\<rparr>) s)))))"

text \<open>The body of \<open>case event, ok := <-watcher.Events\<close> for a delivered event.\<close>

definition handle_event :: "config \<Rightarrow> event_env \<Rightarrow> Event \<Rightarrow> FxWatcher \<Rightarrow> flow" where
  "handle_event cfg env event s =
     (let ePath = ev_Name event in
      then_do (if ev_Op event AND Remove = Remove then remove_branch env ePath s else Next s) (\<lambda>s.
      then_do (if ev_Op event AND Rename = Rename then rename_branch env ePath s else Next s) (\<lambda>s.
      then_do (if ev_Op event AND Create = Create then create_branch cfg env ePath s else Next s) (\<lambda>s.
      if ev_Op event AND Write = Write then write_branch cfg env ePath s else Next s))))"

text \<open>The control requests that a trace holds.\<close>

fun sent :: "action list \<Rightarrow> (string \<times> SeqStreamCtrl) list" where
  "sent [] = []"
| "sent (CtrlSend n v # as) = (n, v) # sent as"
| "sent (a # as) = sent as"

section \<open>The shutdown sweep\<close>

text \<open>
  \<open>for j := range w.CtrlChanOut { if j == StreamExited { break } else if j != StreamEOF {
  log.Fatal(...) } }\<close>: \<open>js\<close> is what the session sends from now on; after it the channel is
  closed (the loop ends) or stays silent (the loop never ends).
\<close>

fun drain_acks :: "string \<Rightarrow> SeqStreamCtrl list \<Rightarrow> bool \<Rightarrow> FxWatcher \<Rightarrow> flow" where
  "drain_acks n [] closed s = (if closed then Next s else Stop Blocked s)"
| "drain_acks n (j # js) closed s =
     (if j = StreamExited then Next (emit (CtrlRecv n j) s)
      else if j \<noteq> StreamEOF then Stop Aborted (emit (CtrlRecv n j) s)
      else drain_acks n js closed (emit (CtrlRecv n j) s))"

text \<open>
  \<open>for ePath, w := range self.Pool { ... }\<close>. Go leaves the order of a map iteration
  open: \<open>order\<close> is the order the run time picks, a list of the keys. Every entry is
  deleted when it is visited, so none is visited twice.
\<close>

fun sweep :: "(string \<Rightarrow> SeqStreamCtrl list \<times> bool) \<Rightarrow> string list \<Rightarrow> FxWatcher \<Rightarrow> flow" where
  "sweep rep [] s = Next s"
| "sweep rep (ePath # ps) s =
     (case Pool s ePath of
        None \<Rightarrow> sweep rep ps s
      | Some w \<Rightarrow>
          if IsDir w then sweep rep ps (pool_delete ePath (emit (WatcherRemove ePath) s))
          else
            (case chan_send (CtrlChanIn w) StreamQuit (emit (WatcherRemove ePath) s) of
               Stop st s' \<Rightarrow> Stop st s'
             | Next s' \<Rightarrow>
                 (case (case CtrlChanOut w of
                          None \<Rightarrow> Stop Blocked s'
                        | Some n \<Rightarrow> drain_acks n (fst (rep ePath)) (snd (rep ePath)) s') of
                    Stop st s'' \<Rightarrow> Stop st s''
                  | Next s'' \<Rightarrow> sweep rep ps (pool_delete ePath s''))))"

record sweep_env =
  order :: "string list"
  replies :: "string \<Rightarrow> SeqStreamCtrl list \<times> bool"

text \<open>
  \<open>case <-ctrlChan\<close>: the sweep under the lock, then \<open>ctrlChan <- WatchCtrl(-9)\<close> and the
  goroutine's \<open>return\<close>.
\<close>

definition shutdown :: "sweep_env \<Rightarrow> FxWatcher \<Rightarrow> flow" where
  "shutdown env s =
     then_do (Lock s) (\<lambda>s.
     then_do (sweep (replies env) (order env) s) (\<lambda>s.
     then_do (Unlock s) (\<lambda>s.
       Stop Returned (emit (Terminal (- 9)) s))))"

text \<open>
  The \<open>SFOR\<close> loop of the watcher's goroutine: each input is what one \<open>select\<close> takes.
  The loop has no exit of its own; when the inputs are used up it is still running.
\<close>

datatype loop_input =
    CtrlRequest sweep_env
  | FsEvent Event event_env
  | FsEventsClosed
  | FsError
  | FsErrorsClosed
  | Idle

fun event_loop :: "config \<Rightarrow> loop_input list \<Rightarrow> FxWatcher \<Rightarrow> status \<times> FxWatcher" where
  "event_loop cfg [] s = (Running, s)"
| "event_loop cfg (i # is) s =
     (case i of
        CtrlRequest env \<Rightarrow> outcome (shutdown env s)
      | FsEvent event env \<Rightarrow>
          (case outcome (handle_event cfg env event s) of
             (Running, s') \<Rightarrow> event_loop cfg is s'
           | r \<Rightarrow> r)
      | FsEventsClosed \<Rightarrow> (Returned, s)
      | FsError \<Rightarrow> (Aborted, s)
      | FsErrorsClosed \<Rightarrow> (Returned, s)
      | Idle \<Rightarrow> event_loop cfg is s)"

section \<open>The watcher's drain loop\<close>

text \<open>
  What one \<open>select\<close> of the \<open>CHAN\<close> loop takes from the entry's two channels. When
  nothing is ready the \<open>default\<close> case leaves the loop: the end of the list. A nil channel
  is never ready, so an input for one is passed over.
\<close>

datatype 'r chan_ev = SeqRecv 'r | SeqClosed | AckRecv SeqStreamCtrl | AckClosed

fun chan_loop ::
  "WatchedFx \<Rightarrow> string \<Rightarrow> 'r chan_ev list \<Rightarrow> FxWatcher \<Rightarrow> 'r list \<Rightarrow> flow \<times> 'r list" where
  "chan_loop w ePath [] s out = (Next s, out)"
| "chan_loop w ePath (SeqRecv r # es) s out =
     (if SeqChan w = None then chan_loop w ePath es s out
      else chan_loop w ePath es s (out @ [r]))"
| "chan_loop w ePath (SeqClosed # es) s out =
     (if SeqChan w = None then chan_loop w ePath es s out else (Next s, out))"
| "chan_loop w ePath (AckRecv e # es) s out =
     (case CtrlChanOut w of
        None \<Rightarrow> chan_loop w ePath es s out
      | Some n \<Rightarrow>
          if e = StreamEOF then (Next (emit (CtrlRecv n e) s), out)
          else if e = StreamExited then (Next (pool_delete ePath (emit (CtrlRecv n e) s)), out)
          else (Stop Aborted (emit (CtrlRecv n e) s), out))"
| "chan_loop w ePath (AckClosed # es) s out =
     (if CtrlChanOut w = None then chan_loop w ePath es s out else (Next s, out))"

text \<open>
  \<open>fi, err := os.Stat(ePath); if err != nil { w.LastSize = fi.Size() }\<close>. \<open>os.Stat\<close>
  returns either a \<open>FileInfo\<close> and a nil error, or a nil \<open>FileInfo\<close> and an error:
  \<open>None\<close>. A method call on the nil \<open>FileInfo\<close> panics.
\<close>

definition refresh_LastSize :: "WatchedFx \<Rightarrow> FileInfo option \<Rightarrow> WatchedFx option" where
  "refresh_LastSize w stat =
     (let err_not_nil = (stat = None) in
      if err_not_nil then
        (case stat of None \<Rightarrow> None | Some fi \<Rightarrow> Some (w\<lparr>LastSize := fi_Size fi\<rparr>))
      else Some w)"

text \<open>
  The body of \<open>for ePath, w := range self.Pool\<close> in the drain loop. \<open>w\<close> points to the
  entry, so an assignment to its field shows in the registry as long as the entry is there.
\<close>

definition drain_visit ::
  "string \<Rightarrow> WatchedFx \<Rightarrow> 'r chan_ev list \<Rightarrow> FileInfo option \<Rightarrow> FxWatcher \<Rightarrow> 'r list \<Rightarrow> flow \<times> 'r list" where
  "drain_visit ePath w es stat s out =
     (case Lock s of
        Stop st s' \<Rightarrow> (Stop st s', out)
      | Next s1 \<Rightarrow>
          (case chan_loop w ePath es s1 out of
             (Stop st s', out') \<Rightarrow> (Stop st s', out')
           | (Next s2, out') \<Rightarrow>
               (case refresh_LastSize w stat of
                  None \<Rightarrow> (Stop Panicked s2, out')
                | Some w' \<Rightarrow>
                    (Unlock (if Pool s2 ePath = None then s2 else pool_put ePath w' s2), out'))))"

text \<open>One pass of the inner \<open>for\<close>: the entries in the order the map iteration yields them.\<close>

fun drain_pass ::
  "(string \<times> 'r chan_ev list \<times> FileInfo option) list \<Rightarrow> FxWatcher \<Rightarrow> 'r list \<Rightarrow> flow \<times> 'r list" where
  "drain_pass [] s out = (Next s, out)"
| "drain_pass ((ePath, es, stat) # vs) s out =
     (case Pool s ePath of
        None \<Rightarrow> drain_pass vs s out
      | Some w \<Rightarrow>
          (case drain_visit ePath w es stat s out of
             (Stop st s', out') \<Rightarrow> (Stop st s', out')
           | (Next s', out') \<Rightarrow> drain_pass vs s' out'))"

section \<open>The root coordinator\<close>

text \<open>
  \<open>xopen.Wopen\<close>: the name \<open>-\<close> stands for the standard output, any other name for the
  file of that name.
\<close>

datatype sink = Stdout | OutFile string

definition Wopen :: "string \<Rightarrow> sink" where
  "Wopen outFile = (if outFile = ''-'' then Stdout else OutFile outFile)"

text \<open>
  Slot \<open>i\<close> of \<open>allSeqChans\<close> and \<open>allCtrlChans\<close> (\<open>False\<close>: the slot is nil), the
  directory that \<open>NewFxWatcher\<close> was started on for it, and that watcher.
\<close>

record root =
  root_dir :: string
  seq_open :: bool
  ctrl_open :: bool
  watcher :: FxWatcher

record 'r coord =
  roots :: "root list"
  written :: "sink \<Rightarrow> 'r list"

text \<open>\<open>fmt.Println(seq)\<close> writes to the standard output.\<close>

definition Println :: "'r \<Rightarrow> (sink \<Rightarrow> 'r list) \<Rightarrow> (sink \<Rightarrow> 'r list)" where
  "Println seq wr = wr(Stdout := wr Stdout @ [seq])"

text \<open>
  The first loop of \<open>LaunchFxWatchers\<close>: one pair of channels and one
  \<open>go NewFxWatcher(dir, ...)\<close> for every element of \<open>dirs\<close>.
\<close>

definition spawn :: "string list \<Rightarrow> root list" where
  "spawn dirs = map (\<lambda>dir. \<lparr>root_dir = dir, seq_open = True, ctrl_open = True,
     watcher = \<lparr>Pool = Map.empty, Locked = False, trace = []\<rparr>\<rparr>) dirs"

text \<open>
  \<open>for i, cc := range allCtrlChans { if cc == nil { continue }; cc <- WatchCtrl(i); <-cc }\<close>.
  The watcher of root \<open>i\<close> takes the request in its \<open>select\<close> and runs its shutdown; the
  coordinator's receive completes when the watcher has sent its acknowledgment. \<open>skip\<close> is
  the test that passes a slot over.
\<close>

fun broadcast ::
  "(root \<Rightarrow> bool) \<Rightarrow> (nat \<Rightarrow> sweep_env) \<Rightarrow> nat \<Rightarrow> root list \<Rightarrow> status \<times> root list" where
  "broadcast skip envs i [] = (Returned, [])"
| "broadcast skip envs i (r # rs) =
     (if skip r then
        (case broadcast skip envs (Suc i) rs of (st, rs') \<Rightarrow> (st, r # rs'))
      else
        (case outcome (shutdown (envs i) (watcher r)) of
           (Returned, w') \<Rightarrow>
             (case broadcast skip envs (Suc i) rs of (st, rs') \<Rightarrow> (st, r\<lparr>watcher := w'\<rparr> # rs'))
         | (st, w') \<Rightarrow> (st, r\<lparr>watcher := w'\<rparr> # rs)))"

text \<open>
  What one \<open>select\<close> of the \<open>PULL\<close> loop takes: a record from the root's queue or a value
  from its control channel; the end of the list is the \<open>default\<close> case.
\<close>

datatype 'r pull_ev = SeqArrived 'r | CtrlArrived int

fun pull :: "'r pull_ev list \<Rightarrow> root \<Rightarrow> (sink \<Rightarrow> 'r list) \<Rightarrow> status \<times> root \<times> (sink \<Rightarrow> 'r list)" where
  "pull [] r wr = (Running, r, wr)"
| "pull (SeqArrived seq # es) r wr = pull es r (Println seq wr)"
| "pull (CtrlArrived fb # es) r wr =
     (if \<not> ctrl_open r then pull es r wr
      else if fb \<noteq> - 9 then (Aborted, r, wr)
      else pull es (r\<lparr>seq_open := False, ctrl_open := False\<rparr>) wr)"

text \<open>
  \<open>for j, sc := range allSeqChans { if sc == nil { continue }; active++; PULL: ... }\<close>;
  the result carries \<open>active\<close>.
\<close>

fun poll ::
  "(nat \<Rightarrow> 'r pull_ev list) \<Rightarrow> nat \<Rightarrow> root list \<Rightarrow> (sink \<Rightarrow> 'r list) \<Rightarrow> nat \<Rightarrow>
     status \<times> root list \<times> (sink \<Rightarrow> 'r list) \<times> nat" where
  "poll evs j [] wr active = (Running, [], wr, active)"
| "poll evs j (r # rs) wr active =
     (if \<not> seq_open r then
        (case poll evs (Suc j) rs wr active of (st, rs', wr', a) \<Rightarrow> (st, r # rs', wr', a))
      else
        (case pull (evs j) r wr of
           (Running, r', wr') \<Rightarrow>
             (case poll evs (Suc j) rs wr' (Suc active) of
                (st, rs', wr'', a) \<Rightarrow> (st, r' # rs', wr'', a))
         | (st, r', wr') \<Rightarrow> (st, r' # rs, wr', Suc active)))"

text \<open>
  One turn of the coordinator's \<open>for { select { ... } }\<close>: the interrupt, a tick of the
  liveness timer (with whether \<open>syscall.Kill\<close> returned an error), or the \<open>default\<close> case.
\<close>

datatype 'r coord_input =
    Interrupt "nat \<Rightarrow> sweep_env"
  | PidTick bool "nat \<Rightarrow> sweep_env"
  | Poll "nat \<Rightarrow> 'r pull_ev list" "nat \<Rightarrow> sweep_env"

text \<open>
  The coordinator's loop. \<open>pidTimer.C\<close> is nil when \<open>waitPid < 0\<close>, so a tick is never
  taken then. When the inputs are used up the loop is still running.
\<close>

fun coordinator :: "int \<Rightarrow> 'r coord_input list \<Rightarrow> 'r coord \<Rightarrow> status \<times> 'r coord" where
  "coordinator waitPid [] c = (Running, c)"
| "coordinator waitPid (Interrupt envs # is) c =
     (case broadcast (\<lambda>r. \<not> ctrl_open r) envs 0 (roots c) of
        (st, rs) \<Rightarrow> (st, c\<lparr>roots := rs\<rparr>))"
| "coordinator waitPid (PidTick killErr envs # is) c =
     (if waitPid < 0 then coordinator waitPid is c
      else if killErr then
        (case broadcast (\<lambda>r. \<not> ctrl_open r) envs 0 (roots c) of
           (st, rs) \<Rightarrow> (st, c\<lparr>roots := rs\<rparr>))
      else coordinator waitPid is c)"
| "coordinator waitPid (Poll evs envs # is) c =
     (case poll evs 0 (roots c) (written c) 0 of
        (Running, rs, wr, active) \<Rightarrow>
          if active = 0 then
            (case broadcast (\<lambda>r. \<not> ctrl_open r \<or> \<not> seq_open r) envs 0 rs of
               (st, rs') \<Rightarrow> (st, c\<lparr>roots := rs', written := wr\<rparr>))
          else coordinator waitPid is (c\<lparr>roots := rs, written := wr\<rparr>)
      | (st, rs, wr, active) \<Rightarrow> (st, c\<lparr>roots := rs, written := wr\<rparr>))"

definition LaunchFxWatchers :: "string list \<Rightarrow> int \<Rightarrow> 'r coord_input list \<Rightarrow> status \<times> 'r coord" where
  "LaunchFxWatchers dirs waitPid inputs =
     coordinator waitPid inputs \<lparr>roots = spawn dirs, written = (\<lambda>_. [])\<rparr>"

text \<open>
  \<open>delta := getFlagInt(cmd, "delta") * 1024\<close> on Go's \<open>int\<close> (64 bits): the product wraps.
\<close>

definition delta_bytes :: "64 word \<Rightarrow> 64 word" where
  "delta_bytes flag = flag * 1024"

text \<open>
  The body of \<open>scatCmd\<close>'s \<open>Run\<close> from \<open>dirs := getFileList(args, true)\<close> on: \<open>dirs\<close>
  is that list. The result is the exit status of \<open>os.Exit(1)\<close>, or the sink that was
  opened together with what \<open>LaunchFxWatchers\<close> returns.
\<close>

definition scat_Run ::
  "string \<Rightarrow> string list \<Rightarrow> int \<Rightarrow> 'r coord_input list \<Rightarrow> int + (sink \<times> status \<times> 'r coord)" where
  "scat_Run outFile dirs waitPid inputs =
     (let outfh = Wopen outFile;
          ndirs = filter (\<lambda>d. d \<noteq> ''-'') dirs
      in if length ndirs = 0 then Inl 1
         else Inr (outfh, LaunchFxWatchers dirs waitPid inputs))"

section \<open>Notions used to state the properties\<close>

text \<open>A write notification: the \<open>Write\<close> bit is set, and no bit of an earlier test is.\<close>

definition write_only :: "32 word \<Rightarrow> bool" where
  "write_only op =
     (op AND Write = Write \<and> op AND Remove \<noteq> Remove \<and> op AND Rename \<noteq> Rename
      \<and> op AND Create \<noteq> Create)"

text \<open>
  A write notification for the path \<open>p\<close> that is taken while less than the drop interval
  has passed since the last try of the entry \<open>w\<close>.
\<close>

fun debounced_write :: "config \<Rightarrow> string \<Rightarrow> WatchedFx \<Rightarrow> loop_input \<Rightarrow> bool" where
  "debounced_write cfg p w (FsEvent ev env) =
     (ev_Name ev = p \<and> write_only (ev_Op ev)
      \<and> time_Sub (now_check env) (LastTry w) < cfg_dropDuration cfg)"
| "debounced_write cfg p w i = False"

text \<open>
  The session's contract of the spec, on what it sends after a \<open>Quit\<close>: some \<open>EOF\<close>s,
  then \<open>Exited\<close>. \<open>violates\<close>: the first acknowledgment that is not \<open>EOF\<close> is not
  \<open>Exited\<close> either.
\<close>

fun answers_exit :: "SeqStreamCtrl list \<Rightarrow> bool" where
  "answers_exit [] = False"
| "answers_exit (j # js) = (j = StreamExited \<or> (j = StreamEOF \<and> answers_exit js))"

fun violates :: "SeqStreamCtrl list \<Rightarrow> bool" where
  "violates [] = False"
| "violates (j # js) = (if j = StreamEOF then violates js else j \<noteq> StreamExited)"

text \<open>
  The spec's shutdown of one entry, as the actions it asks for: a directory is dropped; a
  file is sent \<open>Quit\<close>, its \<open>EOF\<close>s are passed over, and it is removed after \<open>Exited\<close>.
\<close>

definition spec_entry_trace ::
  "(string \<rightharpoonup> WatchedFx) \<Rightarrow> (string \<Rightarrow> SeqStreamCtrl list \<times> bool) \<Rightarrow> string \<Rightarrow> action list" where
  "spec_entry_trace pool rep p =
     (case pool p of
        None \<Rightarrow> []
      | Some w \<Rightarrow>
          if IsDir w then [WatcherRemove p, PoolDelete p]
          else [WatcherRemove p, CtrlSend p StreamQuit]
               @ map (CtrlRecv p) (takeWhile (\<lambda>j. j = StreamEOF) (fst (rep p)))
               @ [CtrlRecv p StreamExited, PoolDelete p])"

text \<open>
  An entry as the watcher makes them: a directory, or a file with the control channels of
  its own session.
\<close>

definition entry_ready :: "FxWatcher \<Rightarrow> string \<Rightarrow> bool" where
  "entry_ready s p =
     (case Pool s p of
        None \<Rightarrow> False
      | Some w \<Rightarrow> IsDir w \<or> (CtrlChanIn w = Some p \<and> CtrlChanOut w = Some p))"

definition session_exits :: "(string \<Rightarrow> SeqStreamCtrl list \<times> bool) \<Rightarrow> FxWatcher \<Rightarrow> string \<Rightarrow> bool" where
  "session_exits rep s p =
     (case Pool s p of None \<Rightarrow> True | Some w \<Rightarrow> IsDir w \<or> answers_exit (fst (rep p)))"

text \<open>
  The watcher can take a shutdown request: its mutex is free, and the map iteration yields
  every key of the registry once.
\<close>

definition sweep_ready :: "sweep_env \<Rightarrow> FxWatcher \<Rightarrow> bool" where
  "sweep_ready env s =
     (\<not> Locked s \<and> distinct (order env) \<and> set (order env) = dom (Pool s)
      \<and> list_all (entry_ready s) (order env))"

text \<open>
  The flag defaults of \<open>init()\<close> for a watcher on \<open>/data\<close>: the pattern
  \<open>.*\.(fastq|fq)\<close> (the path holds \<open>.fastq\<close> or \<open>.fq\<close>), \<open>delta\<close> 5 and
  \<open>drop-time\<close> 500ms.
\<close>

fun has_infix :: "string \<Rightarrow> string \<Rightarrow> bool" where
  "has_infix pat [] = (pat = [])"
| "has_infix pat (c # cs) = (take (length pat) (c # cs) = pat \<or> has_infix pat cs)"

definition default_re :: "string \<Rightarrow> bool" where
  "default_re path = (has_infix ''.fastq'' path \<or> has_infix ''.fq'' path)"

definition default_cfg :: config where
  "default_cfg = \<lparr>cfg_dir = ''/data'', cfg_re = default_re, cfg_minDelta = delta_bytes 5,
     cfg_dropDuration = 500000000, cfg_join = (\<lambda>d p. d @ ''/'' @ p)\<rparr>"

text \<open>
  An environment in which no session answers and every \<open>os.Stat\<close> fails, at time 0;
  examples override the fields they need.
\<close>

definition silent_env :: event_env where
  "silent_env = \<lparr>ack_remove = None, ack_rename = None, ack_trunc = None, stat_create = None,
     stat_write = None, add_ok = True, now_created = 0, now_check = 0, now_try = 0,
     walk_items = [], walk_ok = True\<rparr>"

text \<open>A watcher on \<open>/data\<close> that tracks \<open>/data/a.fastq\<close> at 20480 bytes, tried at time 0.\<close>

definition tracking_a :: FxWatcher where
  "tracking_a = \<lparr>Pool = [''/data'' \<mapsto> dir_entry ''/data'',
       ''/data/a.fastq'' \<mapsto> file_entry ''/data'' ''/data/a.fastq''
          \<lparr>fi_IsDir = False, fi_Size = 20480\<rparr> 0],
     Locked = False, trace = []\<rparr>"

text \<open>
  The spec's shutdown broadcast: every watcher that is addressed can take the request and
  its sessions keep their contract (\<open>roots_ready\<close>); each of them ends with an empty
  registry, its entries shut down one by one, and its acknowledgment sent
  (\<open>spec_broadcast\<close>).
\<close>

fun roots_ready :: "(root \<Rightarrow> bool) \<Rightarrow> (nat \<Rightarrow> sweep_env) \<Rightarrow> nat \<Rightarrow> root list \<Rightarrow> bool" where
  "roots_ready skip envs i [] = True"
| "roots_ready skip envs i (r # rs) =
     ((skip r \<or> (sweep_ready (envs i) (watcher r)
         \<and> list_all (session_exits (replies (envs i)) (watcher r)) (order (envs i))))
      \<and> roots_ready skip envs (Suc i) rs)"

fun spec_broadcast :: "(root \<Rightarrow> bool) \<Rightarrow> (nat \<Rightarrow> sweep_env) \<Rightarrow> nat \<Rightarrow> root list \<Rightarrow> root list" where
  "spec_broadcast skip envs i [] = []"
| "spec_broadcast skip envs i (r # rs) =
     (if skip r then r
      else r\<lparr>watcher := \<lparr>Pool = Map.empty, Locked = False,
             trace = trace (watcher r)
               @ concat (map (spec_entry_trace (Pool (watcher r)) (replies (envs i))) (order (envs i)))
               @ [Terminal (- 9)]\<rparr>\<rparr>)
     # spec_broadcast skip envs (Suc i) rs"

section \<open>Auxiliary facts\<close>

lemma sint_diff_nonneg:
  fixes a b :: "64 word"
  assumes "0 \<le> sint a" "0 \<le> sint b"
  shows "sint (a - b) = sint a - sint b"
proof -
  have "sint a < 2 ^ 63" "sint b < 2 ^ 63"
    using sint_lt [of a] sint_lt [of b] by simp_all
  then have "- (2 ^ 63) \<le> sint a - sint b" "sint a - sint b < 2 ^ 63"
    using assms by linarith+
  then show ?thesis
    by (simp add: sint_word_ariths signed_take_bit_int_eq_self)
qed

lemma sint_delta_bytes:
  assumes "- (2 ^ 53) \<le> sint flag" "sint flag < 2 ^ 53"
  shows "sint (delta_bytes flag) = sint flag * 1024"
proof -
  have "- (2 ^ 63) \<le> sint flag * sint (1024 :: 64 word)"
    "sint flag * sint (1024 :: 64 word) < 2 ^ 63"
    using assms by simp_all
  then show ?thesis
    by (simp add: delta_bytes_def sint_word_ariths signed_take_bit_int_eq_self)
qed

lemma write_only_Write: "write_only Write"
  by (simp add: write_only_def Write_def Remove_def Rename_def Create_def)

lemma handle_write_only:
  "write_only (ev_Op ev) \<Longrightarrow> handle_event cfg env ev s = write_branch cfg env (ev_Name ev) s"
  by (simp add: handle_event_def write_only_def then_do_def)

lemma debounced_step:
  assumes "write_only (ev_Op ev)" "Pool s (ev_Name ev) = Some w" "\<not> Locked s"
    "time_Sub (now_check env) (LastTry w) < cfg_dropDuration cfg"
  shows "outcome (handle_event cfg env ev s) = (Running, s)
       \<or> outcome (handle_event cfg env ev s) = (Aborted, s)"
  using assms
  by (auto simp: handle_write_only write_branch_def then_do_def Lock_def Unlock_def
      split: option.splits)

subsection \<open>The coordinator writes to the standard output only\<close>

lemma pull_file:
  "pull es r wr = (st, r', wr') \<Longrightarrow> wr' (OutFile f) = wr (OutFile f)"
proof (induction es r wr rule: pull.induct)
  case (1 r wr)
  then show ?case by simp
next
  case (2 seq es r wr)
  from "2.prems" have "pull es r (Println seq wr) = (st, r', wr')" by simp
  from "2.IH" [OF this] show ?case by (simp add: Println_def)
next
  case (3 fb es r wr)
  then show ?case by (auto split: if_splits)
qed

lemma poll_file:
  "poll evs j rs wr a = (st, rs', wr', a') \<Longrightarrow> wr' (OutFile f) = wr (OutFile f)"
  by (induction evs j rs wr a arbitrary: st rs' wr' a' rule: poll.induct)
    (fastforce split: prod.splits status.splits if_splits dest: pull_file)+

lemma coordinator_file:
  "coordinator waitPid inputs c = (st, c') \<Longrightarrow> written c' (OutFile f) = written c (OutFile f)"
  by (induction waitPid inputs c rule: coordinator.induct)
    (fastforce split: prod.splits status.splits if_splits dest: poll_file)+

subsection \<open>The shutdown sweep\<close>

lemma drain_acks_exit:
  "answers_exit js \<Longrightarrow>
   drain_acks n js closed s =
     Next (s\<lparr>trace := trace s @ map (CtrlRecv n) (takeWhile (\<lambda>j. j = StreamEOF) js)
                 @ [CtrlRecv n StreamExited]\<rparr>)"
proof (induction js arbitrary: s)
  case Nil
  then show ?case by simp
next
  case (Cons j js)
  then show ?case by (auto simp: emit_def)
qed

lemma drain_acks_violation:
  "violates js \<Longrightarrow>
   \<exists>s'. drain_acks n js closed s = Stop Aborted s' \<and> Pool s' = Pool s \<and> Locked s' = Locked s
      \<and> (\<forall>k. Terminal k \<in> set (trace s') \<longrightarrow> Terminal k \<in> set (trace s))"
proof (induction js arbitrary: s)
  case Nil
  then show ?case by simp
next
  case (Cons j js)
  show ?case
  proof (cases "j = StreamEOF")
    case True
    with Cons.prems have "violates js" by simp
    from Cons.IH [OF this, of "emit (CtrlRecv n j) s"] True show ?thesis
      by (auto simp: emit_def)
  next
    case False
    with Cons.prems show ?thesis by (auto simp: emit_def)
  qed
qed

lemma sweep_step_file:
  "Pool s p = Some w \<Longrightarrow> \<not> IsDir w \<Longrightarrow> CtrlChanIn w = Some p \<Longrightarrow> CtrlChanOut w = Some p \<Longrightarrow>
   sweep rep (p # ps) s =
     then_do (drain_acks p (fst (rep p)) (snd (rep p))
                (emit (CtrlSend p StreamQuit) (emit (WatcherRemove p) s)))
       (\<lambda>s'. sweep rep ps (pool_delete p s'))"
  by (simp add: chan_send_def then_do_def split: flow.splits)

lemma spec_entry_trace_cong:
  "pool p = pool' p \<Longrightarrow> spec_entry_trace pool rep p = spec_entry_trace pool' rep p"
  by (simp add: spec_entry_trace_def)

lemma sweep_all_exit:
  assumes "distinct ps" "list_all (entry_ready s) ps" "list_all (session_exits rep s) ps"
  shows "sweep rep ps s =
    Next (s\<lparr>Pool := Pool s |` (- set ps),
            trace := trace s @ concat (map (spec_entry_trace (Pool s) rep) ps)\<rparr>)"
  using assms
proof (induction ps arbitrary: s)
  case Nil
  then show ?case by simp
next
  case (Cons p ps)
  from Cons.prems obtain w where w: "Pool s p = Some w"
    and ch: "IsDir w \<or> (CtrlChanIn w = Some p \<and> CtrlChanOut w = Some p)"
    and ex: "IsDir w \<or> answers_exit (fst (rep p))"
    by (auto simp: entry_ready_def session_exits_def split: option.splits)
  define s1 where "s1 = s\<lparr>Pool := (Pool s)(p := None),
    trace := trace s @ spec_entry_trace (Pool s) rep p\<rparr>"
  have step: "sweep rep (p # ps) s = sweep rep ps s1"
  proof (cases "IsDir w")
    case True
    with w show ?thesis
      by (simp add: s1_def pool_delete_def emit_def spec_entry_trace_def)
  next
    case False
    with ch ex have c: "CtrlChanIn w = Some p" "CtrlChanOut w = Some p"
      and e: "answers_exit (fst (rep p))" by simp_all
    show ?thesis
      unfolding sweep_step_file [OF w False c] drain_acks_exit [OF e]
      using w False
      by (simp add: then_do_def s1_def pool_delete_def emit_def spec_entry_trace_def)
  qed
  have same: "\<And>q. q \<in> set ps \<Longrightarrow> Pool s1 q = Pool s q"
    using Cons.prems(1) by (auto simp: s1_def)
  have r1: "list_all (entry_ready s1) ps"
    using Cons.prems(2) same by (auto simp: list_all_iff entry_ready_def)
  have r2: "list_all (session_exits rep s1) ps"
    using Cons.prems(3) same by (auto simp: list_all_iff session_exits_def)
  have d: "distinct ps" using Cons.prems(1) by simp
  have tr: "map (spec_entry_trace (Pool s1) rep) ps = map (spec_entry_trace (Pool s) rep) ps"
    using same by (auto intro: spec_entry_trace_cong)
  have pl: "Pool s1 |` (- set ps) = Pool s |` (- set (p # ps))"
    by (auto simp: s1_def restrict_map_def fun_eq_iff)
  show ?case
    unfolding step Cons.IH [OF d r1 r2] tr pl
    by (simp add: s1_def)
qed

lemma restrict_compl_dom: "m |` (- dom m) = Map.empty"
  by (auto simp: restrict_map_def fun_eq_iff)

lemma shutdown_all_exit:
  assumes "sweep_ready env s" "list_all (session_exits (replies env) s) (order env)"
  shows "shutdown env s =
    Stop Returned \<lparr>Pool = Map.empty, Locked = False,
      trace = trace s @ concat (map (spec_entry_trace (Pool s) (replies env)) (order env))
                @ [Terminal (- 9)]\<rparr>"
proof -
  from assms(1) have u: "\<not> Locked s" and d: "distinct (order env)"
    and c: "set (order env) = dom (Pool s)" and r: "list_all (entry_ready s) (order env)"
    by (simp_all add: sweep_ready_def)
  let ?s = "s\<lparr>Locked := True\<rparr>"
  have r': "list_all (entry_ready ?s) (order env)"
    using r by (simp add: list_all_iff entry_ready_def)
  have e': "list_all (session_exits (replies env) ?s) (order env)"
    using assms(2) by (simp add: list_all_iff session_exits_def)
  have sw: "sweep (replies env) (order env) ?s =
      Next (?s\<lparr>Pool := Map.empty,
        trace := trace s @ concat (map (spec_entry_trace (Pool s) (replies env)) (order env))\<rparr>)"
    using sweep_all_exit [OF d r' e'] c by (simp add: restrict_compl_dom)
  have "shutdown env s = Stop Returned (s\<lparr>Pool := Map.empty, Locked := False,
      trace := trace s @ concat (map (spec_entry_trace (Pool s) (replies env)) (order env))
                @ [Terminal (- 9)]\<rparr>)"
    using u by (simp add: shutdown_def Lock_def then_do_def sw Unlock_def emit_def)
  then show ?thesis by (cases s) simp
qed

lemma sweep_append:
  "sweep rep (xs @ ys) s = then_do (sweep rep xs s) (sweep rep ys)"
proof (induction xs arbitrary: s)
  case Nil
  then show ?case by (simp add: then_do_def)
next
  case (Cons p xs)
  then show ?case
    by (simp add: then_do_def split: option.splits flow.splits)
qed

lemma sweep_violation:
  assumes "Pool s p = Some w" "\<not> IsDir w" "CtrlChanIn w = Some p" "CtrlChanOut w = Some p"
    "violates (fst (rep p))"
  shows "\<exists>s'. sweep rep (p # ps) s = Stop Aborted s' \<and> Pool s' = Pool s \<and> Locked s' = Locked s
      \<and> (\<forall>k. Terminal k \<in> set (trace s') \<longrightarrow> Terminal k \<in> set (trace s))"
proof -
  let ?s = "emit (CtrlSend p StreamQuit) (emit (WatcherRemove p) s)"
  from drain_acks_violation [OF assms(5), of p "snd (rep p)" ?s]
  obtain s' where "drain_acks p (fst (rep p)) (snd (rep p)) ?s = Stop Aborted s'"
    "Pool s' = Pool ?s" "Locked s' = Locked ?s"
    "\<forall>k. Terminal k \<in> set (trace s') \<longrightarrow> Terminal k \<in> set (trace ?s)"
    by blast
  then show ?thesis
    unfolding sweep_step_file [OF assms(1-4)]
    by (auto simp: then_do_def emit_def)
qed

lemma shutdown_violation:
  assumes "sweep_ready env s" "order env = pre @ p # post"
    "list_all (session_exits (replies env) s) pre"
    "Pool s p = Some w" "\<not> IsDir w" "violates (fst (replies env p))"
  shows "\<exists>s'. shutdown env s = Stop Aborted s' \<and> Pool s' p = Some w
      \<and> (\<forall>k. Terminal k \<in> set (trace s') \<longrightarrow> Terminal k \<in> set (trace s))"
proof -
  from assms(1) have u: "\<not> Locked s" and d: "distinct (order env)"
    and r: "list_all (entry_ready s) (order env)"
    by (simp_all add: sweep_ready_def)
  let ?s = "s\<lparr>Locked := True\<rparr>"
  from d assms(2) have dp: "distinct pre" and pn: "p \<notin> set pre" by simp_all
  have rp: "list_all (entry_ready ?s) pre"
    using r assms(2) by (simp add: list_all_iff entry_ready_def)
  have ep: "list_all (session_exits (replies env) ?s) pre"
    using assms(3) by (simp add: list_all_iff session_exits_def)
  define s1 where "s1 = ?s\<lparr>Pool := Pool ?s |` (- set pre),
     trace := trace ?s @ concat (map (spec_entry_trace (Pool ?s) (replies env)) pre)\<rparr>"
  have pre: "sweep (replies env) pre ?s = Next s1"
    unfolding s1_def by (rule sweep_all_exit [OF dp rp ep])
  have w1: "Pool s1 p = Some w"
    using assms(4) pn by (simp add: s1_def)
  have "entry_ready s p"
    using r assms(2) by (simp add: list_all_iff)
  with assms(4,5) have c: "CtrlChanIn w = Some p" "CtrlChanOut w = Some p"
    by (simp_all add: entry_ready_def)
  have notail: "\<And>q k. Terminal k \<notin> set (spec_entry_trace (Pool ?s) (replies env) q)"
    by (auto simp: spec_entry_trace_def split: option.splits)
  from sweep_violation [where rep = "replies env" and ps = post, OF w1 assms(5) c assms(6)]
  obtain s' where s': "sweep (replies env) (p # post) s1 = Stop Aborted s'"
    "Pool s' = Pool s1" "Locked s' = Locked s1"
    "\<forall>k. Terminal k \<in> set (trace s') \<longrightarrow> Terminal k \<in> set (trace s1)"
    by blast
  have "sweep (replies env) (pre @ p # post) ?s
      = then_do (Next s1) (sweep (replies env) (p # post))"
    by (simp only: sweep_append pre)
  also have "\<dots> = Stop Aborted s'"
    by (simp only: then_do_def flow.case s'(1))
  finally have sw: "sweep (replies env) (order env) ?s = Stop Aborted s'"
    by (simp only: assms(2))
  have "shutdown env s = Stop Aborted s'"
    using u by (simp add: shutdown_def Lock_def then_do_def sw)
  moreover have "Pool s' p = Some w" using s'(2) w1 by simp
  moreover have "\<forall>k. Terminal k \<in> set (trace s') \<longrightarrow> Terminal k \<in> set (trace s)"
    using s'(4) notail by (auto simp: s1_def)
  ultimately show ?thesis by blast
qed

lemma broadcast_all_exit:
  "roots_ready skip envs i rs \<Longrightarrow> broadcast skip envs i rs = (Returned, spec_broadcast skip envs i rs)"
proof (induction rs arbitrary: i)
  case Nil
  then show ?case by simp
next
  case (Cons r rs)
  then show ?case by (auto simp: shutdown_all_exit)
qed

lemma spec_broadcast_empties:
  "r' \<in> set (spec_broadcast (\<lambda>r. \<not> ctrl_open r) envs i rs) \<Longrightarrow> ctrl_open r' \<Longrightarrow>
   Pool (watcher r') = Map.empty"
  by (induction rs arbitrary: i) (auto split: if_splits)

subsection \<open>The drain loop\<close>

lemma chan_loop_keeps:
  "chan_loop w ePath es s out = (fl, out') \<Longrightarrow>
   Locked (snd (outcome fl)) = Locked s \<and>
   (\<forall>p. Pool (snd (outcome fl)) p = Pool s p \<or> (p = ePath \<and> Pool (snd (outcome fl)) p = None))"
proof (induction w ePath es s out rule: chan_loop.induct)
  case (1 w ePath s out)
  then show ?case by auto
next
  case (2 w ePath r es s out)
  then show ?case by (auto split: if_splits)
next
  case (3 w ePath es s out)
  then show ?case by (auto split: if_splits)
next
  case (4 w ePath e es s out)
  then show ?case by (auto simp: emit_def pool_delete_def split: option.splits if_splits)
next
  case (5 w ePath es s out)
  then show ?case by (auto split: if_splits)
qed

lemma chan_loop_stop:
  "chan_loop w ePath es s out = (Stop st s', out') \<Longrightarrow> st = Aborted"
proof (induction w ePath es s out rule: chan_loop.induct)
  case (1 w ePath s out)
  then show ?case by simp
next
  case (2 w ePath r es s out)
  then show ?case by (auto split: if_splits)
next
  case (3 w ePath es s out)
  then show ?case by (auto split: if_splits)
next
  case (4 w ePath e es s out)
  then show ?case by (auto split: option.splits if_splits)
next
  case (5 w ePath es s out)
  then show ?case by (auto split: if_splits)
qed

lemma drain_visit_stat_ok:
  assumes "Pool s ePath = Some w" "drain_visit ePath w es (Some fi) s out = (fl, out')"
  shows "Pool (snd (outcome fl)) p = Pool s p \<or> (p = ePath \<and> Pool (snd (outcome fl)) p = None)"
proof (cases "Locked s")
  case True
  with assms(2) show ?thesis by (auto simp: drain_visit_def Lock_def)
next
  case False
  obtain fl1 out1 where c: "chan_loop w ePath es (s\<lparr>Locked := True\<rparr>) out = (fl1, out1)"
    by (cases "chan_loop w ePath es (s\<lparr>Locked := True\<rparr>) out") auto
  from chan_loop_keeps [OF c]
  have k: "Locked (snd (outcome fl1))"
    "\<And>q. Pool (snd (outcome fl1)) q = Pool s q \<or> (q = ePath \<and> Pool (snd (outcome fl1)) q = None)"
    by auto
  show ?thesis
  proof (cases fl1)
    case (Stop st s')
    with assms(2) False c k(2) [of p] show ?thesis
      by (auto simp: drain_visit_def Lock_def)
  next
    case (Next s2)
    with k have l2: "Locked s2" by simp
    from Next k(2) [of p] k(2) [of ePath] assms(1)
    have p2: "Pool s2 p = Pool s p \<or> (p = ePath \<and> Pool s2 p = None)"
      and e2: "Pool s2 ePath = Some w \<or> Pool s2 ePath = None" by auto
    from assms(2) False c Next l2
    have "fl = Next ((if Pool s2 ePath = None then s2 else pool_put ePath w s2)\<lparr>Locked := False\<rparr>)"
      by (auto simp: drain_visit_def Lock_def Unlock_def refresh_LastSize_def pool_put_def)
    with p2 e2 assms(1) show ?thesis
      by (auto simp: pool_put_def)
  qed
qed

lemma drain_visit_stat_fails:
  "fst (outcome (fst (drain_visit ePath w es None s out))) \<in> {Panicked, Aborted, Blocked}"
proof (cases "Locked s")
  case True
  then show ?thesis by (simp add: drain_visit_def Lock_def)
next
  case False
  obtain fl1 out1 where c: "chan_loop w ePath es (s\<lparr>Locked := True\<rparr>) out = (fl1, out1)"
    by (cases "chan_loop w ePath es (s\<lparr>Locked := True\<rparr>) out") auto
  have ab: "\<And>st s'. fl1 = Stop st s' \<Longrightarrow> st = Aborted"
    using c chan_loop_stop by blast
  show ?thesis
    using False c ab
    by (cases fl1) (auto simp: drain_visit_def Lock_def refresh_LastSize_def)
qed

lemma drain_visit_panics:
  "\<not> Locked s \<Longrightarrow> chan_loop w ePath es (s\<lparr>Locked := True\<rparr>) out = (Next s2, out') \<Longrightarrow>
   drain_visit ePath w es None s out = (Stop Panicked s2, out')"
  by (simp add: drain_visit_def Lock_def refresh_LastSize_def)

lemma drain_pass_keeps:
  assumes "list_all (\<lambda>v. snd (snd v) \<noteq> None) vs" "drain_pass vs s out = (fl, out')"
    "Pool (snd (outcome fl)) p = Some w"
  shows "Pool s p = Some w"
  using assms
proof (induction vs arbitrary: s out)
  case Nil
  then show ?case by auto
next
  case (Cons v vs)
  obtain ePath es stat where v: "v = (ePath, es, stat)" by (cases v) auto
  from Cons.prems(1) v obtain fi where fi: "stat = Some fi" by auto
  from Cons.prems(1) have rest: "list_all (\<lambda>v. snd (snd v) \<noteq> None) vs" by simp
  show ?case
  proof (cases "Pool s ePath")
    case None
    with Cons.prems(2) v have "drain_pass vs s out = (fl, out')" by simp
    from Cons.IH [OF rest this Cons.prems(3)] show ?thesis .
  next
    case (Some w0)
    obtain fl1 out1 where d: "drain_visit ePath w0 es (Some fi) s out = (fl1, out1)"
      by (cases "drain_visit ePath w0 es (Some fi) s out") auto
    from drain_visit_stat_ok [OF Some d, of p]
    have k: "Pool (snd (outcome fl1)) p = Pool s p
        \<or> (p = ePath \<and> Pool (snd (outcome fl1)) p = None)" .
    show ?thesis
    proof (cases fl1)
      case (Stop st s')
      with Cons.prems(2) v Some fi d have "fl = Stop st s'" by simp
      with Cons.prems(3) k Stop show ?thesis by auto
    next
      case (Next s1)
      with Cons.prems(2) v Some fi d have "drain_pass vs s1 out1 = (fl, out')" by simp
      from Cons.IH [OF rest this Cons.prems(3)] have "Pool s1 p = Some w" .
      with k Next show ?thesis by auto
    qed
  qed
qed

section \<open>The claims\<close>

subsection \<open>C1: one watcher per usable root, none for the placeholder\<close>

text \<open>
  C1 says that the coordinator starts one watcher for every root that is left when the
  placeholder \<open>-\<close> has been filtered out, and none for \<open>-\<close> itself. \<open>Run\<close> filters
  \<open>dirs\<close> into \<open>ndirs\<close> and tests that \<open>ndirs\<close> is not empty, but then hands \<open>dirs\<close>
  to \<open>LaunchFxWatchers\<close>: whenever the run is not rejected, a watcher is started on every
  element of \<open>dirs\<close>, the placeholder included.
\<close>

theorem placeholder_root_is_spawned:
  "filter (\<lambda>d. d \<noteq> ''-'') dirs \<noteq> [] \<Longrightarrow>
   scat_Run outFile dirs waitPid [] =
     Inr (Wopen outFile, Running, \<lparr>roots = spawn dirs, written = (\<lambda>_. [])\<rparr>)
   \<and> map root_dir (spawn dirs) = dirs"
  by (simp add: scat_Run_def LaunchFxWatchers_def spawn_def comp_def)

theorem placeholder_root_is_spawned_witness:
  "scat_Run ''-'' [''-'', ''/data''] (- 1) ([] :: nat coord_input list) =
     Inr (Stdout, Running, \<lparr>roots = spawn [''-'', ''/data''], written = (\<lambda>_. [])\<rparr>)
   \<and> map root_dir (spawn [''-'', ''/data'']) = [''-'', ''/data'']"
  using placeholder_root_is_spawned [of "[''-'', ''/data'']" "''-''" "- 1"]
  by (simp add: Wopen_def)

subsection \<open>C2: records go to the configured output\<close>

text \<open>
  C2 says that every record is forwarded, in arrival order, to the configured output
  destination and to no other channel. \<open>Run\<close> opens the destination as \<open>outfh\<close> and never
  passes it on; the coordinator prints every record with \<open>fmt.Println\<close>. So when the
  destination is a file (any name but \<open>-\<close>), nothing is ever written to it, whatever the
  coordinator receives.
\<close>

theorem records_never_reach_outfh:
  "outFile \<noteq> ''-'' \<Longrightarrow> scat_Run outFile dirs waitPid inputs = Inr (outfh, st, c) \<Longrightarrow>
   outfh = OutFile outFile \<and> written c outfh = []"
proof -
  assume f: "outFile \<noteq> ''-''" and r: "scat_Run outFile dirs waitPid inputs = Inr (outfh, st, c)"
  from r f have o: "outfh = OutFile outFile"
    and l: "coordinator waitPid inputs \<lparr>roots = spawn dirs, written = (\<lambda>_. [])\<rparr> = (st, c)"
    by (auto simp: scat_Run_def LaunchFxWatchers_def Wopen_def Let_def split: if_splits)
  from coordinator_file [OF l, of outFile] o show ?thesis by simp
qed

theorem records_never_reach_outfh_witness:
  "\<exists>c. scat_Run ''out.fq'' [''/data''] (- 1)
          [Poll (\<lambda>j. [SeqArrived (1 :: nat), SeqArrived 2])
             (\<lambda>i. \<lparr>order = [], replies = (\<lambda>p. ([], False))\<rparr>)]
        = Inr (OutFile ''out.fq'', Running, c)
      \<and> written c (OutFile ''out.fq'') = [] \<and> written c Stdout = [1, 2]"
proof -
  let ?c = "\<lparr>roots = spawn [''/data''],
    written = (\<lambda>k. if k = Stdout then [1, 2 :: nat] else [])\<rparr>"
  have r: "scat_Run ''out.fq'' [''/data''] (- 1)
     [Poll (\<lambda>j. [SeqArrived (1 :: nat), SeqArrived 2])
        (\<lambda>i. \<lparr>order = [], replies = (\<lambda>p. ([], False))\<rparr>)]
   = Inr (OutFile ''out.fq'', Running, ?c)"
    by (simp add: scat_Run_def LaunchFxWatchers_def spawn_def Wopen_def Println_def fun_eq_iff)
  have "(''out.fq'' :: string) \<noteq> ''-''" by simp
  from records_never_reach_outfh [OF this r] have "written ?c (OutFile ''out.fq'') = []"
    by simp
  moreover have "written ?c Stdout = [1, 2]" by simp
  ultimately show ?thesis using r by blast
qed

subsection \<open>C3: truncation\<close>

text \<open>
  C3 says that a write notification on a tracked file whose new size is below the last
  known size, taken after the drop interval, makes the watcher send \<open>Quit\<close>, wait for
  \<open>Exited\<close> and remove the entry, and that no \<open>Try\<close> is issued for it. In the model:
  \<open>Quit\<close> is the only request sent; when \<open>Exited\<close> arrives the entry is deleted and the
  lock given back; any other acknowledgment is fatal, and without one the watcher waits.
  File sizes are not negative.
\<close>

theorem truncation_quits_and_removes:
  assumes "write_only (ev_Op ev)" "Pool s (ev_Name ev) = Some w" "\<not> Locked s"
    "CtrlChanIn w = Some n" "CtrlChanOut w = Some m"
    "stat_write env = Some fi" "\<not> fi_IsDir fi"
    "\<not> time_Sub (now_check env) (LastTry w) < cfg_dropDuration cfg"
    "0 \<le> sint (fi_Size fi)" "sint (fi_Size fi) < sint (LastSize w)"
  shows "outcome (handle_event cfg env ev s) =
    (case ack_trunc env of
       None \<Rightarrow> (Blocked, s\<lparr>Locked := True, trace := trace s @ [CtrlSend n StreamQuit]\<rparr>)
     | Some fb \<Rightarrow>
         if fb = StreamExited then
           (Running, s\<lparr>Pool := (Pool s)(ev_Name ev := None),
              trace := trace s @ [CtrlSend n StreamQuit, CtrlRecv m StreamExited,
                                  PoolDelete (ev_Name ev)]\<rparr>)
         else (Aborted, s\<lparr>Locked := True,
                 trace := trace s @ [CtrlSend n StreamQuit, CtrlRecv m fb]\<rparr>))"
proof -
  have d: "sint (fi_Size fi - LastSize w) < 0"
    using assms(9,10) by (simp add: sint_diff_nonneg)
  have ne: "LastSize w \<noteq> fi_Size fi"
    using assms(10) by auto
  show ?thesis
    using assms(1-8) d ne
    by (auto simp: handle_write_only write_branch_def then_do_def Lock_def Unlock_def
        quit_and_wait_def chan_send_def chan_recv_def emit_def pool_delete_def Let_def
        split: option.splits)
qed

theorem truncation_quits_and_removes_witness:
  "outcome (handle_event default_cfg
      (silent_env\<lparr>stat_write := Some \<lparr>fi_IsDir = False, fi_Size = 0\<rparr>,
                  now_check := 600000000, ack_trunc := Some StreamExited\<rparr>)
      \<lparr>ev_Name = ''/data/a.fastq'', ev_Op = Write\<rparr> tracking_a)
   = (Running, \<lparr>Pool = [''/data'' \<mapsto> dir_entry ''/data''], Locked = False,
        trace = [CtrlSend ''/data/a.fastq'' StreamQuit, CtrlRecv ''/data/a.fastq'' StreamExited,
                 PoolDelete ''/data/a.fastq'']\<rparr>)"
proof -
  let ?env = "silent_env\<lparr>stat_write := Some \<lparr>fi_IsDir = False, fi_Size = 0\<rparr>,
                  now_check := 600000000, ack_trunc := Some StreamExited\<rparr>"
  let ?ev = "\<lparr>ev_Name = ''/data/a.fastq'', ev_Op = Write\<rparr>"
  let ?w = "file_entry ''/data'' ''/data/a.fastq'' \<lparr>fi_IsDir = False, fi_Size = 20480\<rparr> 0"
  let ?fi = "\<lparr>fi_IsDir = False, fi_Size = 0 :: 64 word\<rparr>"
  have 1: "write_only (ev_Op ?ev)" by (simp add: write_only_Write)
  have 2: "Pool tracking_a (ev_Name ?ev) = Some ?w" by (simp add: tracking_a_def)
  have 3: "\<not> Locked tracking_a" by (simp add: tracking_a_def)
  have 4: "CtrlChanIn ?w = Some ''/data/a.fastq''" "CtrlChanOut ?w = Some ''/data/a.fastq''"
    by (simp_all add: file_entry_def)
  have 5: "stat_write ?env = Some ?fi" "\<not> fi_IsDir ?fi" by (simp_all add: silent_env_def)
  have 6: "\<not> time_Sub (now_check ?env) (LastTry ?w) < cfg_dropDuration default_cfg"
    by (simp add: silent_env_def file_entry_def default_cfg_def time_Sub_def)
  have 7: "0 \<le> sint (fi_Size ?fi)" "sint (fi_Size ?fi) < sint (LastSize ?w)"
    by (simp_all add: file_entry_def)
  have p: "(Pool tracking_a)(''/data/a.fastq'' := None) = [''/data'' \<mapsto> dir_entry ''/data'']"
    by (simp add: tracking_a_def)
  from truncation_quits_and_removes [OF 1 2 3 4 5 6 7] p show ?thesis
    by (simp add: silent_env_def tracking_a_def)
qed

subsection \<open>C4: a rename notification for an untracked path\<close>

text \<open>
  C4 says that a rename notification for a path that is not in the registry is ignored, as
  a remove notification for such a path is. The remove path tests \<open>di == nil\<close>; the rename
  path reads \<open>self.Pool[ePath].CtrlChanIn\<close> with no test, so for an untracked path it
  dereferences nil: the watcher panics, in whatever state it is.
\<close>

theorem rename_untracked_panics:
  "Pool s (ev_Name ev) = None \<Longrightarrow> ev_Op ev AND Remove \<noteq> Remove \<Longrightarrow>
   ev_Op ev AND Rename = Rename \<Longrightarrow>
   outcome (handle_event cfg env ev s) = (Panicked, s)"
  by (simp add: handle_event_def rename_branch_def then_do_def)

theorem rename_untracked_panics_witness:
  "outcome (handle_event default_cfg silent_env \<lparr>ev_Name = ''/data/b.fastq'', ev_Op = Rename\<rparr>
     tracking_a) = (Panicked, tracking_a)
   \<and> outcome (handle_event default_cfg silent_env \<lparr>ev_Name = ''/data/b.fastq'', ev_Op = Remove\<rparr>
     tracking_a) = (Running, tracking_a)"
proof -
  have "outcome (handle_event default_cfg silent_env \<lparr>ev_Name = ''/data/b.fastq'', ev_Op = Rename\<rparr>
     tracking_a) = (Panicked, tracking_a)"
    by (rule rename_untracked_panics) (simp_all add: tracking_a_def Rename_def Remove_def)
  moreover have "outcome (handle_event default_cfg silent_env
     \<lparr>ev_Name = ''/data/b.fastq'', ev_Op = Remove\<rparr> tracking_a) = (Running, tracking_a)"
    by (simp add: handle_event_def remove_branch_def then_do_def Lock_def Unlock_def
        tracking_a_def Remove_def)
  ultimately show ?thesis by simp
qed

subsection \<open>C5: the debounce floor\<close>

text \<open>
  C5 says that for any sequence of write notifications for one tracked file, no \<open>Try\<close> is
  issued while the time since the entry's last try is below the drop interval, however
  much the file has grown. In the model such a sequence leaves the watcher as it was, so
  its trace gains no request at all; the loop is still running after it, or the process
  was aborted because an \<open>os.Stat\<close> failed. The size that \<open>os.Stat\<close> reports is not
  restricted.
\<close>

theorem debounce_blocks_try:
  assumes "Pool s p = Some w" "\<not> Locked s" "list_all (debounced_write cfg p w) inputs"
  shows "snd (event_loop cfg inputs s) = s
    \<and> sent (trace (snd (event_loop cfg inputs s))) = sent (trace s)
    \<and> fst (event_loop cfg inputs s) \<in> {Running, Aborted}"
proof -
  have "event_loop cfg inputs s = (Running, s) \<or> event_loop cfg inputs s = (Aborted, s)"
    using assms(3)
  proof (induction inputs)
    case Nil
    then show ?case by simp
  next
    case (Cons i inputs)
    from Cons.prems obtain ev env where i: "i = FsEvent ev env" and n: "ev_Name ev = p"
      and wo: "write_only (ev_Op ev)"
      and t: "time_Sub (now_check env) (LastTry w) < cfg_dropDuration cfg"
      by (cases i) auto
    from Cons.prems have rest: "list_all (debounced_write cfg p w) inputs" by simp
    have "Pool s (ev_Name ev) = Some w" using assms(1) n by simp
    from debounced_step [OF wo this assms(2) t]
    have "outcome (handle_event cfg env ev s) = (Running, s)
        \<or> outcome (handle_event cfg env ev s) = (Aborted, s)" .
    then show ?case
      using Cons.IH [OF rest] i by auto
  qed
  then show ?thesis by auto
qed

theorem debounce_blocks_try_witness:
  "snd (event_loop default_cfg
     [FsEvent \<lparr>ev_Name = ''/data/a.fastq'', ev_Op = Write\<rparr>
        (silent_env\<lparr>stat_write := Some \<lparr>fi_IsDir = False, fi_Size = 10485760\<rparr>,
                    now_check := 100000000\<rparr>),
      FsEvent \<lparr>ev_Name = ''/data/a.fastq'', ev_Op = Write\<rparr>
        (silent_env\<lparr>stat_write := Some \<lparr>fi_IsDir = False, fi_Size = 20971520\<rparr>,
                    now_check := 499999999\<rparr>)]
     tracking_a) = tracking_a"
proof -
  let ?w = "file_entry ''/data'' ''/data/a.fastq'' \<lparr>fi_IsDir = False, fi_Size = 20480\<rparr> 0"
  have 1: "Pool tracking_a ''/data/a.fastq'' = Some ?w" by (simp add: tracking_a_def)
  have 2: "\<not> Locked tracking_a" by (simp add: tracking_a_def)
  have 3: "list_all (debounced_write default_cfg ''/data/a.fastq'' ?w)
     [FsEvent \<lparr>ev_Name = ''/data/a.fastq'', ev_Op = Write\<rparr>
        (silent_env\<lparr>stat_write := Some \<lparr>fi_IsDir = False, fi_Size = 10485760\<rparr>,
                    now_check := 100000000\<rparr>),
      FsEvent \<lparr>ev_Name = ''/data/a.fastq'', ev_Op = Write\<rparr>
        (silent_env\<lparr>stat_write := Some \<lparr>fi_IsDir = False, fi_Size = 20971520\<rparr>,
                    now_check := 499999999\<rparr>)]"
    by (simp add: write_only_Write silent_env_def file_entry_def default_cfg_def time_Sub_def)
  from debounce_blocks_try [OF 1 2 3] show ?thesis by simp
qed

subsection \<open>C6: the growth threshold\<close>

text \<open>
  C6 says that a write notification on a tracked file that is past the drop interval and
  shows growth issues no \<open>Try\<close> and leaves the entry as it is when the growth is below
  the threshold, the \<open>delta\<close> flag in kilobytes turned into bytes, and otherwise sends
  one \<open>Try\<close> and sets the entry's last try to the time read then. The threshold is
  the product that \<open>Run\<close> computes on Go's \<open>int\<close>; it is the flag times 1024 as long as
  that fits 64 bits. File sizes are not negative.
\<close>

theorem growth_threshold_decides_try:
  assumes "write_only (ev_Op ev)" "Pool s (ev_Name ev) = Some w" "\<not> Locked s"
    "CtrlChanIn w = Some n"
    "stat_write env = Some fi" "\<not> fi_IsDir fi"
    "\<not> time_Sub (now_check env) (LastTry w) < cfg_dropDuration cfg"
    "0 \<le> sint (LastSize w)" "sint (LastSize w) < sint (fi_Size fi)"
    "cfg_minDelta cfg = delta_bytes flag"
  shows "outcome (handle_event cfg env ev s) =
    (if sint (fi_Size fi) - sint (LastSize w) < sint (delta_bytes flag) then (Running, s)
     else (Running, s\<lparr>Pool := (Pool s)(ev_Name ev \<mapsto> w\<lparr>LastTry := now_try env\<rparr>),
              trace := trace s @ [CtrlSend n StreamTry]\<rparr>))
    \<and> (- (2 ^ 53) \<le> sint flag \<and> sint flag < 2 ^ 53
         \<longrightarrow> sint (delta_bytes flag) = sint flag * 1024)"
proof -
  have d: "sint (fi_Size fi - LastSize w) = sint (fi_Size fi) - sint (LastSize w)"
    using assms(8,9) by (simp add: sint_diff_nonneg)
  have ne: "LastSize w \<noteq> fi_Size fi"
    using assms(9) by auto
  have "outcome (handle_event cfg env ev s) =
    (if sint (fi_Size fi) - sint (LastSize w) < sint (delta_bytes flag) then (Running, s)
     else (Running, s\<lparr>Pool := (Pool s)(ev_Name ev \<mapsto> w\<lparr>LastTry := now_try env\<rparr>),
              trace := trace s @ [CtrlSend n StreamTry]\<rparr>))"
    using assms(1-7,9,10) d ne
    by (auto simp: handle_write_only write_branch_def then_do_def Lock_def Unlock_def
        chan_send_def emit_def pool_put_def Let_def
        split: option.splits)
  then show ?thesis by (simp add: sint_delta_bytes)
qed

theorem growth_threshold_decides_try_witness:
  "outcome (handle_event default_cfg
      (silent_env\<lparr>stat_write := Some \<lparr>fi_IsDir = False, fi_Size = 30720\<rparr>,
                  now_check := 600000000, now_try := 600000001\<rparr>)
      \<lparr>ev_Name = ''/data/a.fastq'', ev_Op = Write\<rparr> tracking_a)
   = (Running, \<lparr>Pool = [''/data'' \<mapsto> dir_entry ''/data'',
          ''/data/a.fastq'' \<mapsto> file_entry ''/data'' ''/data/a.fastq''
             \<lparr>fi_IsDir = False, fi_Size = 20480\<rparr> 600000001],
        Locked = False, trace = [CtrlSend ''/data/a.fastq'' StreamTry]\<rparr>)
   \<and> outcome (handle_event default_cfg
      (silent_env\<lparr>stat_write := Some \<lparr>fi_IsDir = False, fi_Size = 21504\<rparr>,
                  now_check := 600000000, now_try := 600000001\<rparr>)
      \<lparr>ev_Name = ''/data/a.fastq'', ev_Op = Write\<rparr> tracking_a)
   = (Running, tracking_a)"
proof -
  let ?ev = "\<lparr>ev_Name = ''/data/a.fastq'', ev_Op = Write\<rparr>"
  let ?w = "file_entry ''/data'' ''/data/a.fastq'' \<lparr>fi_IsDir = False, fi_Size = 20480\<rparr> 0"
  have 1: "write_only (ev_Op ?ev)" by (simp add: write_only_Write)
  have 2: "Pool tracking_a (ev_Name ?ev) = Some ?w" by (simp add: tracking_a_def)
  have 3: "\<not> Locked tracking_a" by (simp add: tracking_a_def)
  have 4: "CtrlChanIn ?w = Some ''/data/a.fastq''" by (simp add: file_entry_def)
  have 8: "0 \<le> sint (LastSize ?w)" by (simp add: file_entry_def)
  have 10: "cfg_minDelta default_cfg = delta_bytes 5" by (simp add: default_cfg_def)
  have 11: "sint (delta_bytes 5) = 5120" by (simp add: delta_bytes_def)
  have a: "outcome (handle_event default_cfg
      (silent_env\<lparr>stat_write := Some \<lparr>fi_IsDir = False, fi_Size = 30720\<rparr>,
                  now_check := 600000000, now_try := 600000001\<rparr>) ?ev tracking_a)
   = (Running, \<lparr>Pool = [''/data'' \<mapsto> dir_entry ''/data'',
          ''/data/a.fastq'' \<mapsto> file_entry ''/data'' ''/data/a.fastq''
             \<lparr>fi_IsDir = False, fi_Size = 20480\<rparr> 600000001],
        Locked = False, trace = [CtrlSend ''/data/a.fastq'' StreamTry]\<rparr>)"
  proof -
    let ?env = "silent_env\<lparr>stat_write := Some \<lparr>fi_IsDir = False, fi_Size = 30720\<rparr>,
                  now_check := 600000000, now_try := 600000001\<rparr>"
    let ?fi = "\<lparr>fi_IsDir = False, fi_Size = 30720 :: 64 word\<rparr>"
    have 5: "stat_write ?env = Some ?fi" "\<not> fi_IsDir ?fi" by (simp_all add: silent_env_def)
    have 7: "\<not> time_Sub (now_check ?env) (LastTry ?w) < cfg_dropDuration default_cfg"
      by (simp add: silent_env_def file_entry_def default_cfg_def time_Sub_def)
    have 9: "sint (LastSize ?w) < sint (fi_Size ?fi)" by (simp add: file_entry_def)
    from growth_threshold_decides_try [OF 1 2 3 4 5 7 8 9 10] 11 show ?thesis
      by (simp add: silent_env_def tracking_a_def file_entry_def)
  qed
  have b: "outcome (handle_event default_cfg
      (silent_env\<lparr>stat_write := Some \<lparr>fi_IsDir = False, fi_Size = 21504\<rparr>,
                  now_check := 600000000, now_try := 600000001\<rparr>) ?ev tracking_a)
   = (Running, tracking_a)"
  proof -
    let ?env = "silent_env\<lparr>stat_write := Some \<lparr>fi_IsDir = False, fi_Size = 21504\<rparr>,
                  now_check := 600000000, now_try := 600000001\<rparr>"
    let ?fi = "\<lparr>fi_IsDir = False, fi_Size = 21504 :: 64 word\<rparr>"
    have 5: "stat_write ?env = Some ?fi" "\<not> fi_IsDir ?fi" by (simp_all add: silent_env_def)
    have 7: "\<not> time_Sub (now_check ?env) (LastTry ?w) < cfg_dropDuration default_cfg"
      by (simp add: silent_env_def file_entry_def default_cfg_def time_Sub_def)
    have 9: "sint (LastSize ?w) < sint (fi_Size ?fi)" by (simp add: file_entry_def)
    from growth_threshold_decides_try [OF 1 2 3 4 5 7 8 9 10] 11 show ?thesis
      by (simp add: file_entry_def)
  qed
  from a b show ?thesis by simp
qed

subsection \<open>C7: the shutdown handshake\<close>

text \<open>
  C7 says that on a shutdown request every directory entry is dropped and every file entry
  is sent \<open>Quit\<close>; that while the acknowledgments are drained \<open>EOF\<close> is passed over,
  anything but \<open>EOF\<close> and \<open>Exited\<close> is fatal, and an entry is removed only after its
  \<open>Exited\<close>; that the watcher sends its own acknowledgment when the registry is empty;
  and that the coordinator does not terminate before. In the model, for a watcher whose
  mutex is free and whose registry the iteration covers:
  \<^item> when every session answers \<open>Quit\<close> with \<open>EOF\<close>s and then \<open>Exited\<close>, the watcher
    returns with an empty registry, having done for each entry, in the order of the
    iteration, what \<open>spec_entry_trace\<close> lists, and \<open>Terminal (- 9)\<close> last;
  \<^item> when the sessions before \<open>p\<close> do so and the first acknowledgment of \<open>p\<close> that is not
    \<open>EOF\<close> is not \<open>Exited\<close>, the process is aborted with \<open>p\<close> still registered and no
    acknowledgment sent;
  \<^item> on an interrupt, and on a tick of the liveness timer that finds the process gone, the
    coordinator returns when every watcher whose control channel is not nil has done the
    above, each of them with an empty registry.
\<close>

theorem shutdown_handshake:
  "(sweep_ready env s \<and> list_all (session_exits (replies env) s) (order env) \<longrightarrow>
      shutdown env s =
        Stop Returned \<lparr>Pool = Map.empty, Locked = False,
          trace = trace s @ concat (map (spec_entry_trace (Pool s) (replies env)) (order env))
                    @ [Terminal (- 9)]\<rparr>)
   \<and> (sweep_ready env s \<and> order env = pre @ p # post
        \<and> list_all (session_exits (replies env) s) pre
        \<and> Pool s p = Some w \<and> \<not> IsDir w \<and> violates (fst (replies env p)) \<longrightarrow>
      (\<exists>s'. shutdown env s = Stop Aborted s' \<and> Pool s' p = Some w
         \<and> (\<forall>k. Terminal k \<in> set (trace s') \<longrightarrow> Terminal k \<in> set (trace s))))
   \<and> (roots_ready (\<lambda>r. \<not> ctrl_open r) envs 0 (roots c) \<longrightarrow>
      coordinator waitPid (Interrupt envs # inputs) c =
        (Returned, c\<lparr>roots := spec_broadcast (\<lambda>r. \<not> ctrl_open r) envs 0 (roots c)\<rparr>)
      \<and> (0 \<le> waitPid \<longrightarrow>
           coordinator waitPid (PidTick True envs # inputs) c =
             (Returned, c\<lparr>roots := spec_broadcast (\<lambda>r. \<not> ctrl_open r) envs 0 (roots c)\<rparr>))
      \<and> (\<forall>r \<in> set (spec_broadcast (\<lambda>r. \<not> ctrl_open r) envs 0 (roots c)).
            ctrl_open r \<longrightarrow> Pool (watcher r) = Map.empty))"
proof (intro conjI impI)
  assume "sweep_ready env s \<and> list_all (session_exits (replies env) s) (order env)"
  then show "shutdown env s =
        Stop Returned \<lparr>Pool = Map.empty, Locked = False,
          trace = trace s @ concat (map (spec_entry_trace (Pool s) (replies env)) (order env))
                    @ [Terminal (- 9)]\<rparr>"
    by (simp add: shutdown_all_exit)
next
  assume "sweep_ready env s \<and> order env = pre @ p # post
        \<and> list_all (session_exits (replies env) s) pre
        \<and> Pool s p = Some w \<and> \<not> IsDir w \<and> violates (fst (replies env p))"
  then show "\<exists>s'. shutdown env s = Stop Aborted s' \<and> Pool s' p = Some w
         \<and> (\<forall>k. Terminal k \<in> set (trace s') \<longrightarrow> Terminal k \<in> set (trace s))"
    using shutdown_violation [of env s pre p post w] by blast
next
  assume "roots_ready (\<lambda>r. \<not> ctrl_open r) envs 0 (roots c)"
  then show "coordinator waitPid (Interrupt envs # inputs) c =
        (Returned, c\<lparr>roots := spec_broadcast (\<lambda>r. \<not> ctrl_open r) envs 0 (roots c)\<rparr>)"
    by (simp add: broadcast_all_exit)
next
  assume "roots_ready (\<lambda>r. \<not> ctrl_open r) envs 0 (roots c)" and "0 \<le> waitPid"
  then show "coordinator waitPid (PidTick True envs # inputs) c =
        (Returned, c\<lparr>roots := spec_broadcast (\<lambda>r. \<not> ctrl_open r) envs 0 (roots c)\<rparr>)"
    by (simp add: broadcast_all_exit)
next
  show "\<forall>r \<in> set (spec_broadcast (\<lambda>r. \<not> ctrl_open r) envs 0 (roots c)).
            ctrl_open r \<longrightarrow> Pool (watcher r) = Map.empty"
    using spec_broadcast_empties by blast
qed

theorem shutdown_handshake_witness:
  "shutdown \<lparr>order = [''/data/a.fastq'', ''/data''],
             replies = (\<lambda>p. ([StreamEOF, StreamExited], False))\<rparr> tracking_a
   = Stop Returned \<lparr>Pool = Map.empty, Locked = False,
       trace = [WatcherRemove ''/data/a.fastq'', CtrlSend ''/data/a.fastq'' StreamQuit,
                CtrlRecv ''/data/a.fastq'' StreamEOF, CtrlRecv ''/data/a.fastq'' StreamExited,
                PoolDelete ''/data/a.fastq'', WatcherRemove ''/data'', PoolDelete ''/data'',
                Terminal (- 9)]\<rparr>
   \<and> (\<exists>s'. shutdown \<lparr>order = [''/data'', ''/data/a.fastq''],
                      replies = (\<lambda>p. ([StreamEOF, StreamTry], False))\<rparr> tracking_a
             = Stop Aborted s'
           \<and> Pool s' ''/data/a.fastq'' = Pool tracking_a ''/data/a.fastq''
           \<and> Terminal (- 9) \<notin> set (trace s'))
   \<and> coordinator (- 1)
        [Interrupt (\<lambda>i. \<lparr>order = [''/data/a.fastq'', ''/data''],
                          replies = (\<lambda>p. ([StreamExited], False))\<rparr>)]
        \<lparr>roots = [\<lparr>root_dir = ''/old'', seq_open = False, ctrl_open = False,
                    watcher = \<lparr>Pool = Map.empty, Locked = False, trace = []\<rparr>\<rparr>,
                  \<lparr>root_dir = ''/data'', seq_open = True, ctrl_open = True,
                    watcher = tracking_a\<rparr>],
         written = (\<lambda>k. [] :: nat list)\<rparr>
      = (Returned,
         \<lparr>roots = [\<lparr>root_dir = ''/old'', seq_open = False, ctrl_open = False,
                    watcher = \<lparr>Pool = Map.empty, Locked = False, trace = []\<rparr>\<rparr>,
                  \<lparr>root_dir = ''/data'', seq_open = True, ctrl_open = True,
                    watcher = \<lparr>Pool = Map.empty, Locked = False,
                      trace = [WatcherRemove ''/data/a.fastq'',
                               CtrlSend ''/data/a.fastq'' StreamQuit,
                               CtrlRecv ''/data/a.fastq'' StreamExited,
                               PoolDelete ''/data/a.fastq'', WatcherRemove ''/data'',
                               PoolDelete ''/data'', Terminal (- 9)]\<rparr>\<rparr>],
          written = (\<lambda>k. [])\<rparr>)"
proof -
  let ?w = "file_entry ''/data'' ''/data/a.fastq'' \<lparr>fi_IsDir = False, fi_Size = 20480\<rparr> 0"
  let ?e1 = "\<lparr>order = [''/data/a.fastq'', ''/data''],
             replies = (\<lambda>p. ([StreamEOF, StreamExited], False))\<rparr>"
  let ?e2 = "\<lparr>order = [''/data'', ''/data/a.fastq''],
             replies = (\<lambda>p. ([StreamEOF, StreamTry], False))\<rparr>"
  let ?e3 = "\<lambda>i :: nat. \<lparr>order = [''/data/a.fastq'', ''/data''],
             replies = (\<lambda>p. ([StreamExited], False))\<rparr>"
  let ?c = "\<lparr>roots = [\<lparr>root_dir = ''/old'', seq_open = False, ctrl_open = False,
                    watcher = \<lparr>Pool = Map.empty, Locked = False, trace = []\<rparr>\<rparr>,
                  \<lparr>root_dir = ''/data'', seq_open = True, ctrl_open = True,
                    watcher = tracking_a\<rparr>],
         written = (\<lambda>k. [] :: nat list)\<rparr>"
  have pa: "Pool tracking_a ''/data/a.fastq'' = Some ?w" by (simp add: tracking_a_def)
  have r1: "sweep_ready ?e1 tracking_a"
    by (auto simp: sweep_ready_def entry_ready_def tracking_a_def dir_entry_def file_entry_def)
  have x1: "list_all (session_exits (replies ?e1) tracking_a) (order ?e1)"
    by (simp add: session_exits_def tracking_a_def dir_entry_def file_entry_def)
  have r2: "sweep_ready ?e2 tracking_a"
    by (auto simp: sweep_ready_def entry_ready_def tracking_a_def dir_entry_def file_entry_def)
  have x2: "order ?e2 = [''/data''] @ ''/data/a.fastq'' # []"
    "list_all (session_exits (replies ?e2) tracking_a) [''/data'']"
    "\<not> IsDir ?w" "violates (fst (replies ?e2 ''/data/a.fastq''))"
    by (simp_all add: session_exits_def tracking_a_def dir_entry_def file_entry_def)
  have r3: "roots_ready (\<lambda>r. \<not> ctrl_open r) ?e3 0 (roots ?c)"
    by (auto simp: sweep_ready_def entry_ready_def session_exits_def tracking_a_def
        dir_entry_def file_entry_def)
  have a: "shutdown ?e1 tracking_a =
        Stop Returned \<lparr>Pool = Map.empty, Locked = False,
          trace = trace tracking_a
            @ concat (map (spec_entry_trace (Pool tracking_a) (replies ?e1)) (order ?e1))
            @ [Terminal (- 9)]\<rparr>"
    by (rule shutdown_handshake [where env = ?e1 and s = tracking_a,
          THEN conjunct1, THEN mp, OF conjI [OF r1 x1]])
  have v: "sweep_ready ?e2 tracking_a \<and> order ?e2 = [''/data''] @ ''/data/a.fastq'' # []
        \<and> list_all (session_exits (replies ?e2) tracking_a) [''/data'']
        \<and> Pool tracking_a ''/data/a.fastq'' = Some ?w \<and> \<not> IsDir ?w
        \<and> violates (fst (replies ?e2 ''/data/a.fastq''))"
    using r2 x2 pa by (intro conjI)
  from shutdown_handshake [where env = ?e2 and s = tracking_a and pre = "[''/data'']"
      and p = "''/data/a.fastq''" and post = "[]" and w = ?w,
      THEN conjunct2, THEN conjunct1, THEN mp, OF v]
  obtain s' where b: "shutdown ?e2 tracking_a = Stop Aborted s'"
    "Pool s' ''/data/a.fastq'' = Some ?w"
    "\<forall>k. Terminal k \<in> set (trace s') \<longrightarrow> Terminal k \<in> set (trace tracking_a)"
    by (elim exE conjE)
  have "Terminal (- 9) \<notin> set (trace tracking_a)" by (simp add: tracking_a_def)
  with b(3) have b3: "Terminal (- 9) \<notin> set (trace s')" by blast
  have c: "coordinator (- 1) [Interrupt ?e3] ?c =
        (Returned, ?c\<lparr>roots := spec_broadcast (\<lambda>r. \<not> ctrl_open r) ?e3 0 (roots ?c)\<rparr>)"
    by (rule shutdown_handshake [where envs = ?e3 and c = ?c and waitPid = "- 1"
          and inputs = "[]", THEN conjunct2, THEN conjunct2, THEN mp, THEN conjunct1, OF r3])
  have "shutdown ?e1 tracking_a
   = Stop Returned \<lparr>Pool = Map.empty, Locked = False,
       trace = [WatcherRemove ''/data/a.fastq'', CtrlSend ''/data/a.fastq'' StreamQuit,
                CtrlRecv ''/data/a.fastq'' StreamEOF, CtrlRecv ''/data/a.fastq'' StreamExited,
                PoolDelete ''/data/a.fastq'', WatcherRemove ''/data'', PoolDelete ''/data'',
                Terminal (- 9)]\<rparr>"
    unfolding a
    by (simp add: spec_entry_trace_def tracking_a_def dir_entry_def file_entry_def)
  moreover have "\<exists>s'. shutdown ?e2 tracking_a = Stop Aborted s'
           \<and> Pool s' ''/data/a.fastq'' = Pool tracking_a ''/data/a.fastq''
           \<and> Terminal (- 9) \<notin> set (trace s')"
    using b(1,2) b3 pa by (intro exI [of _ s']) simp
  moreover have "coordinator (- 1) [Interrupt ?e3] ?c
      = (Returned,
         \<lparr>roots = [\<lparr>root_dir = ''/old'', seq_open = False, ctrl_open = False,
                    watcher = \<lparr>Pool = Map.empty, Locked = False, trace = []\<rparr>\<rparr>,
                  \<lparr>root_dir = ''/data'', seq_open = True, ctrl_open = True,
                    watcher = \<lparr>Pool = Map.empty, Locked = False,
                      trace = [WatcherRemove ''/data/a.fastq'',
                               CtrlSend ''/data/a.fastq'' StreamQuit,
                               CtrlRecv ''/data/a.fastq'' StreamExited,
                               PoolDelete ''/data/a.fastq'', WatcherRemove ''/data'',
                               PoolDelete ''/data'', Terminal (- 9)]\<rparr>\<rparr>],
          written = (\<lambda>k. [])\<rparr>)"
    unfolding c
    by (simp add: spec_entry_trace_def tracking_a_def dir_entry_def file_entry_def)
  ultimately show ?thesis by (intro conjI)
qed

subsection \<open>C8: a failing \<open>os.Stat\<close> while an event is handled\<close>

text \<open>
  C8 says that a stat failure while a create or a write notification is handled is taken
  as "already gone" and never aborts the process. Both paths call \<open>checkError(err)\<close>
  right after \<open>os.Stat\<close>: a write notification for \<open>/data/a.fastq\<close> whose \<open>os.Stat\<close>
  fails ends the process.
\<close>

theorem stat_failure_aborts:
  "fst (outcome (handle_event default_cfg silent_env
      \<lparr>ev_Name = ''/data/a.fastq'', ev_Op = Write\<rparr> tracking_a)) = Aborted"
  by (simp add: handle_write_only write_only_Write write_branch_def silent_env_def)

text \<open>
  C8 as amended: a stat failure while a write notification, or a create notification for an
  untracked path, is handled aborts the process, with the registry as it was.
\<close>

theorem stat_failure_is_fatal:
  "(write_only (ev_Op ev) \<and> stat_write env = None
      \<longrightarrow> outcome (handle_event cfg env ev s) = (Aborted, s))
   \<and> (ev_Op ev AND Remove \<noteq> Remove \<and> ev_Op ev AND Rename \<noteq> Rename
       \<and> ev_Op ev AND Create = Create \<and> Pool s (ev_Name ev) = None \<and> stat_create env = None
      \<longrightarrow> outcome (handle_event cfg env ev s) = (Aborted, s))"
proof (intro conjI impI)
  assume "write_only (ev_Op ev) \<and> stat_write env = None"
  then show "outcome (handle_event cfg env ev s) = (Aborted, s)"
    by (simp add: handle_write_only write_branch_def)
next
  assume "ev_Op ev AND Remove \<noteq> Remove \<and> ev_Op ev AND Rename \<noteq> Rename
       \<and> ev_Op ev AND Create = Create \<and> Pool s (ev_Name ev) = None \<and> stat_create env = None"
  then show "outcome (handle_event cfg env ev s) = (Aborted, s)"
    by (simp add: handle_event_def create_branch_def then_do_def)
qed

theorem stat_failure_is_fatal_witness:
  "outcome (handle_event default_cfg silent_env
      \<lparr>ev_Name = ''/data/gone.fastq'', ev_Op = Write\<rparr> tracking_a) = (Aborted, tracking_a)
   \<and> outcome (handle_event default_cfg silent_env
      \<lparr>ev_Name = ''/data/gone.fastq'', ev_Op = Create\<rparr> tracking_a) = (Aborted, tracking_a)"
proof -
  let ?w = "\<lparr>ev_Name = ''/data/gone.fastq'', ev_Op = Write\<rparr>"
  let ?c = "\<lparr>ev_Name = ''/data/gone.fastq'', ev_Op = Create\<rparr>"
  have 1: "write_only (ev_Op ?w) \<and> stat_write silent_env = None"
    by (simp add: write_only_Write silent_env_def)
  have 2: "ev_Op ?c AND Remove \<noteq> Remove \<and> ev_Op ?c AND Rename \<noteq> Rename
       \<and> ev_Op ?c AND Create = Create \<and> Pool tracking_a (ev_Name ?c) = None
       \<and> stat_create silent_env = None"
    by (simp add: Create_def Remove_def Rename_def tracking_a_def silent_env_def)
  from stat_failure_is_fatal [of ?w silent_env default_cfg tracking_a] 1
  have "outcome (handle_event default_cfg silent_env ?w tracking_a) = (Aborted, tracking_a)"
    by blast
  moreover from stat_failure_is_fatal [of ?c silent_env default_cfg tracking_a] 2
  have "outcome (handle_event default_cfg silent_env ?c tracking_a) = (Aborted, tracking_a)"
    by blast
  ultimately show ?thesis by simp
qed

subsection \<open>C9: the refresh of the last known size in the drain loop\<close>

text \<open>
  C9 says that the drain loop's refresh of \<open>LastSize\<close> runs its assignment exactly when
  \<open>os.Stat\<close> returned an error, where it dereferences the nil \<open>FileInfo\<close>, and that the
  drain loop leaves \<open>LastSize\<close> as it is when \<open>os.Stat\<close> succeeds. In the model: the
  refresh has no result exactly on an error and returns the entry unchanged otherwise; a
  visit of an entry whose \<open>os.Stat\<close> fails never completes, and panics whenever its
  \<open>CHAN\<close> loop was left normally; and after a pass in which every \<open>os.Stat\<close> succeeds,
  every entry still registered is the entry that was registered before.
\<close>

theorem drain_refresh_only_on_stat_error:
  "(refresh_LastSize w stat = None \<longleftrightarrow> stat = None)
   \<and> refresh_LastSize w (Some fi) = Some w
   \<and> fst (outcome (fst (drain_visit ePath w es None s out))) \<in> {Panicked, Aborted, Blocked}
   \<and> (\<not> Locked s \<and> chan_loop w ePath es (s\<lparr>Locked := True\<rparr>) out = (Next s2, out2) \<longrightarrow>
        drain_visit ePath w es None s out = (Stop Panicked s2, out2))
   \<and> (list_all (\<lambda>v. snd (snd v) \<noteq> None) vs
        \<and> Pool (snd (outcome (fst (drain_pass vs s out)))) p = Some w' \<longrightarrow>
        Pool s p = Some w')"
proof (intro conjI impI)
  show "refresh_LastSize w stat = None \<longleftrightarrow> stat = None"
    by (cases stat) (simp_all add: refresh_LastSize_def)
next
  show "refresh_LastSize w (Some fi) = Some w"
    by (simp add: refresh_LastSize_def)
next
  show "fst (outcome (fst (drain_visit ePath w es None s out))) \<in> {Panicked, Aborted, Blocked}"
    by (rule drain_visit_stat_fails)
next
  assume "\<not> Locked s \<and> chan_loop w ePath es (s\<lparr>Locked := True\<rparr>) out = (Next s2, out2)"
  then show "drain_visit ePath w es None s out = (Stop Panicked s2, out2)"
    by (simp add: drain_visit_panics)
next
  assume a: "list_all (\<lambda>v. snd (snd v) \<noteq> None) vs
        \<and> Pool (snd (outcome (fst (drain_pass vs s out)))) p = Some w'"
  obtain fl out' where d: "drain_pass vs s out = (fl, out')"
    by (cases "drain_pass vs s out") auto
  from a d drain_pass_keeps [OF _ d, of p w'] show "Pool s p = Some w'" by simp
qed

theorem drain_refresh_only_on_stat_error_witness:
  "drain_visit ''/data/a.fastq''
     (file_entry ''/data'' ''/data/a.fastq'' \<lparr>fi_IsDir = False, fi_Size = 20480\<rparr> 0)
     [SeqRecv (7 :: nat), AckRecv StreamEOF] None tracking_a []
   = (Stop Panicked
        (tracking_a\<lparr>Locked := True, trace := [CtrlRecv ''/data/a.fastq'' StreamEOF]\<rparr>), [7])
   \<and> Pool (snd (outcome (fst (drain_pass
        [(''/data/a.fastq'', [SeqRecv (7 :: nat), AckRecv StreamEOF],
          Some \<lparr>fi_IsDir = False, fi_Size = 30720\<rparr>)] tracking_a [])))) ''/data/a.fastq''
     = Some (file_entry ''/data'' ''/data/a.fastq'' \<lparr>fi_IsDir = False, fi_Size = 20480\<rparr> 0)"
proof -
  let ?w = "file_entry ''/data'' ''/data/a.fastq'' \<lparr>fi_IsDir = False, fi_Size = 20480\<rparr> 0"
  let ?es = "[SeqRecv (7 :: nat), AckRecv StreamEOF]"
  let ?s2 = "tracking_a\<lparr>Locked := True, trace := [CtrlRecv ''/data/a.fastq'' StreamEOF]\<rparr>"
  note h = drain_refresh_only_on_stat_error
  have 1: "\<not> Locked tracking_a
      \<and> chan_loop ?w ''/data/a.fastq'' ?es (tracking_a\<lparr>Locked := True\<rparr>) [] = (Next ?s2, [7])"
    by (simp add: tracking_a_def file_entry_def emit_def)
  from h [of ?w _ _ "''/data/a.fastq''" ?es tracking_a "[]" ?s2 "[7]"] 1
  have a: "drain_visit ''/data/a.fastq'' ?w ?es None tracking_a [] = (Stop Panicked ?s2, [7])"
    by blast
  have b: "Pool (snd (outcome (fst (drain_pass
        [(''/data/a.fastq'', ?es, Some \<lparr>fi_IsDir = False, fi_Size = 30720\<rparr>)] tracking_a []))))
        ''/data/a.fastq'' = Some ?w"
    by (simp add: drain_visit_def Lock_def Unlock_def refresh_LastSize_def tracking_a_def
        file_entry_def emit_def pool_put_def)
  from a b show ?thesis by simp
qed

subsection \<open>C10: the walk callback and the registry lock\<close>

text \<open>
  C10 says that every path through the walk callback that takes the registry lock gives it
  back before it returns, the early return for a file that does not match the pattern
  included. That early return is a bare \<open>return nil\<close>: the callback returns with the
  mutex held, and the next call of the callback never gets past \<open>Lock\<close>.
\<close>

theorem walkFunc_leaks_lock:
  "\<not> Locked s \<Longrightarrow> Pool s (cfg_join cfg (cfg_dir cfg) (wi_path it)) = None \<Longrightarrow>
   \<not> fi_IsDir (wi_info it) \<Longrightarrow> \<not> cfg_re cfg (cfg_join cfg (cfg_dir cfg) (wi_path it)) \<Longrightarrow>
   walkFunc cfg it s = Next (s\<lparr>Locked := True\<rparr>)
   \<and> walk cfg [it, it'] s = Stop Blocked (s\<lparr>Locked := True\<rparr>)"
  by (simp add: walkFunc_def then_do_def Lock_def Let_def)

theorem walkFunc_leaks_lock_witness:
  "walkFunc default_cfg
     \<lparr>wi_path = ''readme.txt'', wi_info = \<lparr>fi_IsDir = False, fi_Size = 10\<rparr>, wi_add_ok = True,
      wi_stat = Some \<lparr>fi_IsDir = False, fi_Size = 10\<rparr>, wi_now = 0\<rparr>
     tracking_a = Next (tracking_a\<lparr>Locked := True\<rparr>)
   \<and> Locked (tracking_a\<lparr>Locked := True\<rparr>)"
proof -
  let ?it = "\<lparr>wi_path = ''readme.txt'', wi_info = \<lparr>fi_IsDir = False, fi_Size = 10\<rparr>,
      wi_add_ok = True, wi_stat = Some \<lparr>fi_IsDir = False, fi_Size = 10\<rparr>, wi_now = 0\<rparr>"
  have 1: "\<not> Locked tracking_a" by (simp add: tracking_a_def)
  have 2: "Pool tracking_a (cfg_join default_cfg (cfg_dir default_cfg) (wi_path ?it)) = None"
    by (simp add: tracking_a_def default_cfg_def)
  have 3: "\<not> fi_IsDir (wi_info ?it)" by simp
  have 4: "\<not> cfg_re default_cfg (cfg_join default_cfg (cfg_dir default_cfg) (wi_path ?it))"
    by (simp add: default_cfg_def default_re_def)
  from walkFunc_leaks_lock [OF 1 2 3 4] show ?thesis by simp
qed

end
